theory Spec2Isabelle
  imports Complex_Main
begin

section \<open>JavaScript values\<close>

text \<open>
  The streaming client of \<^verbatim>\<open>src/frontend/lib/cedar-stream.ts\<close> works on whatever
  \<^verbatim>\<open>JSON.parse\<close> returns. A parsed value is a \<open>jsval\<close>; \<open>JUndefined\<close> is the
  result of reading a property that is absent (\<^verbatim>\<open>JSON.parse\<close> itself never returns it).
  An object is the list of its own properties, each key once (\<^verbatim>\<open>JSON.parse\<close> keeps one
  value per key). Numbers inside frames are only tested for truthiness, so they are kept
  as integers.
\<close>

datatype jsval =
    JUndefined
  | JNull
  | JBool bool
  | JNum int
  | JStr string
  | JArr "jsval list"
  | JObj "(string \<times> jsval) list"

text \<open>A JavaScript number that is a latency sample: a finite value or \<^verbatim>\<open>NaN\<close>
  (\<^verbatim>\<open>new Date(x).getTime()\<close> of an unreadable date). Rounding of doubles is not modelled.\<close>

datatype number = Finite real | NaN

datatype exn = TypeError | SyntaxError | HandlerThrew

text \<open>Truthiness, as \<^verbatim>\<open>&&\<close>, \<^verbatim>\<open>||\<close> and \<^verbatim>\<open>if\<close> test it.\<close>

fun truthy :: "jsval \<Rightarrow> bool" where
  "truthy JUndefined = False"
| "truthy JNull = False"
| "truthy (JBool b) = b"
| "truthy (JNum n) = (n \<noteq> 0)"
| "truthy (JStr s) = (s \<noteq> [])"
| "truthy (JArr xs) = True"
| "truthy (JObj kvs) = True"

text \<open>Reading one of the properties \<^verbatim>\<open>type\<close>, \<^verbatim>\<open>channel\<close>, \<^verbatim>\<open>data\<close>,
  \<^verbatim>\<open>timestamp\<close> of a value that is neither \<^verbatim>\<open>null\<close> nor \<^verbatim>\<open>undefined\<close>: an object
  gives the stored value, anything else (a primitive, an array) has no such property.\<close>

fun js_get :: "jsval \<Rightarrow> string \<Rightarrow> jsval" where
  "js_get (JObj kvs) k = (case map_of kvs k of None \<Rightarrow> JUndefined | Some v \<Rightarrow> v)"
| "js_get v k = JUndefined"

text \<open>The property read \<^verbatim>\<open>v.k\<close> itself: a \<^verbatim>\<open>TypeError\<close> on \<^verbatim>\<open>null\<close> and \<^verbatim>\<open>undefined\<close>.\<close>

definition js_prop :: "jsval \<Rightarrow> string \<Rightarrow> exn + jsval" where
  "js_prop v k = (if v = JNull \<or> v = JUndefined then Inl TypeError else Inr (js_get v k))"

fun typeof_string :: "jsval \<Rightarrow> bool" where
  "typeof_string (JStr s) = True"
| "typeof_string v = False"

definition js_or :: "jsval \<Rightarrow> jsval \<Rightarrow> jsval" where
  "js_or a b = (if truthy a then a else b)"

section \<open>Types of the client (\<^verbatim>\<open>types/cedar-stream\<close>)\<close>

datatype CedarStreamStatus = Connecting | Connected | Disconnected | Reconnecting | Error

datatype CedarStreamEvent = Ev_connect | Ev_disconnect | Ev_reconnect | Ev_error | Ev_status_change

text \<open>An optional field is \<open>None\<close> when it is absent or \<^verbatim>\<open>undefined\<close>.\<close>

record CedarStreamConfig =
  endpoint :: string
  channels :: "string list"
  reconnectInterval :: "int option"
  maxReconnectAttempts :: "int option"
  heartbeatInterval :: "int option"
  debug :: "bool option"

record CedarStreamMetrics =
  messagesReceived :: nat
  messagesProcessed :: nat
  errorsCount :: nat
  lastMessageTime :: string
  connectionUptime :: int
  averageLatency :: number

text \<open>The value handed to \<^verbatim>\<open>handleError\<close>: the transport's error event, or what
  \<^verbatim>\<open>new URL\<close> / \<^verbatim>\<open>new EventSource\<close> threw. Only its \<^verbatim>\<open>code\<close> and \<^verbatim>\<open>message\<close> are read.\<close>

record js_error =
  e_code :: "string option"
  e_message :: "string option"

record CedarStreamError =
  err_code :: string
  err_message :: string
  err_timestamp :: string
  err_context :: js_error
  recoverable :: bool

text \<open>The argument of a lifecycle listener.\<close>

datatype payload =
    NoData
  | StatusChange CedarStreamStatus CedarStreamStatus
  | ReconnectInfo nat int
  | ErrorInfo CedarStreamError

section \<open>The platform\<close>

text \<open>
  Calls that leave the client are recorded, in order, in the \<open>trace\<close> of the state.
  Channel handlers and lifecycle listeners are callbacks of the embedding application,
  known by a reference (a number). While one runs it may call back into the client:
  the calls modelled are those that change the arrays a dispatch walks, \<^verbatim>\<open>subscribe\<close>,
  \<^verbatim>\<open>unsubscribe\<close>, \<^verbatim>\<open>on\<close> and \<^verbatim>\<open>off\<close>, any number of them in any order; then the
  callback returns or throws. A callback does not call \<^verbatim>\<open>connect\<close> or \<^verbatim>\<open>disconnect\<close>
  from inside a dispatch.
\<close>

datatype reentry =
    ReSubscribe string nat
  | ReUnsubscribe string "nat option"
  | ReOn CedarStreamEvent nat
  | ReOff CedarStreamEvent nat

datatype effect =
    NewEventSource string "string list"
  | CloseEventSource
  | SetTimeout int
  | ClearTimeout
  | SetInterval int
  | ClearInterval
  | HandlerCall nat jsval
  | ListenerCall nat CedarStreamEvent payload
  | ConsoleLog string

record platform =
  url_ok :: "string \<Rightarrow> bool"
  es_ok :: "string \<Rightarrow> bool"
  handler_does :: "nat \<Rightarrow> jsval \<Rightarrow> reentry list"
  handler_throws :: "nat \<Rightarrow> jsval \<Rightarrow> bool"
  listener_does :: "nat \<Rightarrow> payload \<Rightarrow> reentry list"
  listener_throws :: "nat \<Rightarrow> payload \<Rightarrow> bool"
  toISOString :: "int \<Rightarrow> string"
  date_getTime :: "jsval \<Rightarrow> int option"

section \<open>The state of \<^verbatim>\<open>CedarStreamService\<close>\<close>

text \<open>\<open>eventSource\<close>, \<open>reconnectTimer\<close> and \<open>heartbeatTimer\<close> hold a handle or
  \<^verbatim>\<open>null\<close>; the handles are only tested and passed back, so each field is \<open>True\<close>
  exactly when it holds one.

  Both tables map a key to an array that is changed in place (\<^verbatim>\<open>push\<close>, \<^verbatim>\<open>splice\<close>) while
  a dispatch may be walking it. \<^verbatim>\<open>unsubscribe(channel)\<close> deletes the entry of a channel, and
  a later \<^verbatim>\<open>subscribe\<close> makes a new array, while a dispatch that started before still
  walks the old one: so \<open>channelHandlers\<close> maps a channel to the address of its array and
  \<open>arrays\<close> is the store of the arrays, \<open>next_array\<close> the first address not yet used.
  An entry of \<open>eventHandlers\<close> is never deleted and never replaced, so the array of an
  event is one and the same from its creation on, and the entry stands for it.\<close>

record CedarStreamService =
  config :: CedarStreamConfig
  status :: CedarStreamStatus
  eventSource :: bool
  eventHandlers :: "CedarStreamEvent \<Rightarrow> nat list option"
  channelHandlers :: "string \<Rightarrow> nat option"
  arrays :: "nat \<Rightarrow> nat list"
  next_array :: nat
  reconnectAttempts :: nat
  reconnectTimer :: bool
  heartbeatTimer :: bool
  metrics :: CedarStreamMetrics
  connectionStartTime :: int
  latencyHistory :: "number list"
  trace :: "effect list"

definition default_opt :: "'a \<Rightarrow> 'a option \<Rightarrow> 'a option" where
  "default_opt d v = (case v of None \<Rightarrow> Some d | Some x \<Rightarrow> Some x)"

text \<open>The constructor: the defaults, overridden by the fields the caller gives. (A field
  given as \<^verbatim>\<open>undefined\<close> overrides the default with \<^verbatim>\<open>undefined\<close>; every later read
  has the form \<^verbatim>\<open>x || d\<close> or tests truthiness, so the client behaves as with the default.)
  The numbers of the configuration are taken to be integers.\<close>

definition new_service :: "CedarStreamConfig \<Rightarrow> CedarStreamService" where
  "new_service cfg =
     \<lparr> config = cfg
         \<lparr> reconnectInterval := default_opt 3000 (reconnectInterval cfg),
           maxReconnectAttempts := default_opt 5 (maxReconnectAttempts cfg),
           heartbeatInterval := default_opt 30000 (heartbeatInterval cfg),
           debug := default_opt False (debug cfg) \<rparr>,
       status = Disconnected,
       eventSource = False,
       eventHandlers = (\<lambda>e. None),
       channelHandlers = (\<lambda>c. None),
       arrays = (\<lambda>a. []),
       next_array = 0,
       reconnectAttempts = 0,
       reconnectTimer = False,
       heartbeatTimer = False,
       metrics = \<lparr> messagesReceived = 0, messagesProcessed = 0, errorsCount = 0,
                   lastMessageTime = [], connectionUptime = 0, averageLatency = Finite 0 \<rparr>,
       connectionStartTime = 0,
       latencyHistory = [],
       trace = [] \<rparr>"

text \<open>\<^verbatim>\<open>x || d\<close> on an optional number: \<^verbatim>\<open>undefined\<close> and \<^verbatim>\<open>0\<close> give the default.\<close>

definition num_or :: "int option \<Rightarrow> int \<Rightarrow> int" where
  "num_or v d = (case v of None \<Rightarrow> d | Some x \<Rightarrow> if x = 0 then d else x)"

definition str_or :: "string option \<Rightarrow> string \<Rightarrow> string" where
  "str_or v d = (case v of None \<Rightarrow> d | Some x \<Rightarrow> if x = [] then d else x)"

definition do_effect :: "effect \<Rightarrow> CedarStreamService \<Rightarrow> CedarStreamService" where
  "do_effect e s = s\<lparr>trace := trace s @ [e]\<rparr>"

definition log :: "string \<Rightarrow> CedarStreamService \<Rightarrow> CedarStreamService" where
  "log msg s = (if debug (config s) = Some True then do_effect (ConsoleLog msg) s else s)"

section \<open>The two tables\<close>

definition on :: "CedarStreamEvent \<Rightarrow> nat \<Rightarrow> CedarStreamService \<Rightarrow> CedarStreamService" where
  "on ev h s =
     (let hs = (case eventHandlers s ev of None \<Rightarrow> [] | Some l \<Rightarrow> l)
      in s\<lparr>eventHandlers := (eventHandlers s)(ev \<mapsto> hs @ [h])\<rparr>)"

definition off :: "CedarStreamEvent \<Rightarrow> nat \<Rightarrow> CedarStreamService \<Rightarrow> CedarStreamService" where
  "off ev h s =
     (case eventHandlers s ev of
        None \<Rightarrow> s
      | Some hs \<Rightarrow> s\<lparr>eventHandlers := (eventHandlers s)(ev \<mapsto> remove1 h hs)\<rparr>)"

text \<open>\<^verbatim>\<open>subscribe\<close>: a channel without an entry gets a new, empty array; then the handler
  is pushed onto the array of the channel.\<close>

definition subscribe :: "string \<Rightarrow> nat \<Rightarrow> CedarStreamService \<Rightarrow> CedarStreamService" where
  "subscribe c h s =
     (let s1 = (case channelHandlers s c of
                  None \<Rightarrow> s\<lparr> channelHandlers := (channelHandlers s)(c \<mapsto> next_array s),
                             arrays := (arrays s)(next_array s := []),
                             next_array := next_array s + 1 \<rparr>
                | Some a \<Rightarrow> s);
          s2 = (case channelHandlers s1 c of
                  None \<Rightarrow> s1
                | Some a \<Rightarrow> s1\<lparr>arrays := (arrays s1)(a := arrays s1 a @ [h])\<rparr>)
      in log ''Subscribed to channel'' s2)"

text \<open>\<^verbatim>\<open>unsubscribe\<close>: with a handler, its first occurrence is spliced out of the array of
  the channel; without one, the entry of the channel is deleted and its array is left
  as it is.\<close>

definition unsubscribe :: "string \<Rightarrow> nat option \<Rightarrow> CedarStreamService \<Rightarrow> CedarStreamService" where
  "unsubscribe c handler s =
     (case channelHandlers s c of
        None \<Rightarrow> s
      | Some a \<Rightarrow>
          log ''Unsubscribed from channel''
            (case handler of
               Some h \<Rightarrow> s\<lparr>arrays := (arrays s)(a := remove1 h (arrays s a))\<rparr>
             | None \<Rightarrow> s\<lparr>channelHandlers := (channelHandlers s)(c := None)\<rparr>))"

text \<open>\<^verbatim>\<open>this.eventHandlers.get(event) || []\<close> and
  \<^verbatim>\<open>this.channelHandlers.get(key) || []\<close>, as lists; the keys of the second table are
  strings.\<close>

definition listeners_of :: "CedarStreamService \<Rightarrow> CedarStreamEvent \<Rightarrow> nat list" where
  "listeners_of s ev = (case eventHandlers s ev of None \<Rightarrow> [] | Some l \<Rightarrow> l)"

definition handlers_of :: "CedarStreamService \<Rightarrow> jsval \<Rightarrow> nat list" where
  "handlers_of s key =
     (case key of
        JStr c \<Rightarrow> (case channelHandlers s c of None \<Rightarrow> [] | Some a \<Rightarrow> arrays s a)
      | _ \<Rightarrow> [])"

text \<open>The calls a callback makes while it runs.\<close>

fun reenter :: "reentry \<Rightarrow> CedarStreamService \<Rightarrow> CedarStreamService" where
  "reenter (ReSubscribe c h) s = subscribe c h s"
| "reenter (ReUnsubscribe c h) s = unsubscribe c h s"
| "reenter (ReOn ev h) s = on ev h s"
| "reenter (ReOff ev h) s = off ev h s"

definition reenter_all :: "reentry list \<Rightarrow> CedarStreamService \<Rightarrow> CedarStreamService" where
  "reenter_all ops s = foldl (\<lambda>s op. reenter op s) s ops"

section \<open>Lifecycle listeners\<close>

text \<open>\<^verbatim>\<open>handler(data)\<close> inside \<^verbatim>\<open>try\<close>: the listener makes its calls, then returns or
  throws.\<close>

definition call_listener ::
  "platform \<Rightarrow> nat \<Rightarrow> payload \<Rightarrow> CedarStreamService \<Rightarrow> (exn + unit) \<times> CedarStreamService"
where
  "call_listener pf h d s =
     (if listener_throws pf h d then Inl HandlerThrew else Inr (),
      reenter_all (listener_does pf h d) s)"

text \<open>The body of the loop of \<^verbatim>\<open>emit\<close>, for listener \<open>h\<close>: the call, and the \<^verbatim>\<open>catch\<close>
  that logs what it threw.\<close>

definition listener_called ::
  "platform \<Rightarrow> CedarStreamEvent \<Rightarrow> payload \<Rightarrow> nat \<Rightarrow> CedarStreamService \<Rightarrow> CedarStreamService"
where
  "listener_called pf ev d h s =
     (case call_listener pf h d (do_effect (ListenerCall h ev d) s) of
        (Inr u, s2) \<Rightarrow> s2
      | (Inl e, s2) \<Rightarrow> log ''Error in event handler'' s2)"

text \<open>\<^verbatim>\<open>handlers.forEach\<close> on the array of event \<open>ev\<close>: the length is read once, before
  the first call; index \<open>k\<close> is visited when the array, as it is by then, still has an
  element there, and skipped otherwise. \<open>r\<close> counts the indices still to visit.\<close>

fun forEach_listener ::
  "platform \<Rightarrow> CedarStreamEvent \<Rightarrow> payload \<Rightarrow> nat \<Rightarrow> nat \<Rightarrow> CedarStreamService
     \<Rightarrow> CedarStreamService"
where
  "forEach_listener pf ev d k 0 s = s"
| "forEach_listener pf ev d k (Suc r) s =
     (if k < length (listeners_of s ev)
      then forEach_listener pf ev d (Suc k) r (listener_called pf ev d (listeners_of s ev ! k) s)
      else forEach_listener pf ev d (Suc k) r s)"

definition emit ::
  "platform \<Rightarrow> CedarStreamEvent \<Rightarrow> payload \<Rightarrow> CedarStreamService \<Rightarrow> CedarStreamService"
where
  "emit pf ev d s = forEach_listener pf ev d 0 (length (listeners_of s ev)) s"

definition setStatus :: "platform \<Rightarrow> CedarStreamStatus \<Rightarrow> CedarStreamService \<Rightarrow> CedarStreamService" where
  "setStatus pf st s =
     (if status s \<noteq> st then
        (let oldStatus = status s;
             s1 = s\<lparr>status := st\<rparr>;
             s2 = log ''Status changed'' s1
         in emit pf Ev_status_change (StatusChange oldStatus st) s2)
      else s)"

section \<open>Channel router\<close>

definition call_handler ::
  "platform \<Rightarrow> nat \<Rightarrow> jsval \<Rightarrow> CedarStreamService \<Rightarrow> (exn + unit) \<times> CedarStreamService"
where
  "call_handler pf h ev s =
     (if handler_throws pf h ev then Inl HandlerThrew else Inr (),
      reenter_all (handler_does pf h ev) s)"

text \<open>The body of the loop of \<^verbatim>\<open>processCedarEvent\<close>, for handler \<open>h\<close>.\<close>

definition handler_called ::
  "platform \<Rightarrow> jsval \<Rightarrow> nat \<Rightarrow> CedarStreamService \<Rightarrow> CedarStreamService"
where
  "handler_called pf ev h s =
     (case call_handler pf h ev (do_effect (HandlerCall h ev) s) of
        (Inr u, s2) \<Rightarrow> s2
      | (Inl e, s2) \<Rightarrow> log ''Error in channel handler'' s2)"

text \<open>\<^verbatim>\<open>handlers.forEach\<close> on the array at address \<open>a\<close>, as for the listeners.\<close>

fun forEach_handler ::
  "platform \<Rightarrow> jsval \<Rightarrow> nat \<Rightarrow> nat \<Rightarrow> nat \<Rightarrow> CedarStreamService \<Rightarrow> CedarStreamService"
where
  "forEach_handler pf ev a k 0 s = s"
| "forEach_handler pf ev a k (Suc r) s =
     (if k < length (arrays s a)
      then forEach_handler pf ev a (Suc k) r (handler_called pf ev (arrays s a ! k) s)
      else forEach_handler pf ev a (Suc k) r s)"

text \<open>\<^verbatim>\<open>event.channel\<close> is read first and throws on \<^verbatim>\<open>null\<close>, before anything is changed.
  A channel without an entry, or a key that is no string, gives a new empty array and
  nothing to call.\<close>

definition dispatch :: "platform \<Rightarrow> jsval \<Rightarrow> jsval \<Rightarrow> CedarStreamService \<Rightarrow> CedarStreamService" where
  "dispatch pf ev key s =
     (case key of
        JStr c \<Rightarrow>
          (case channelHandlers s c of
             None \<Rightarrow> s
           | Some a \<Rightarrow> forEach_handler pf ev a 0 (length (arrays s a)) s)
      | _ \<Rightarrow> s)"

definition processCedarEvent ::
  "platform \<Rightarrow> jsval \<Rightarrow> CedarStreamService \<Rightarrow> exn + CedarStreamService"
where
  "processCedarEvent pf ev s =
     (case js_prop ev ''channel'' of
        Inl e \<Rightarrow> Inl e
      | Inr ch \<Rightarrow> Inr (dispatch pf ev ch s))"

section \<open>Frame decoding\<close>

definition isCedarEvent :: "jsval \<Rightarrow> bool" where
  "isCedarEvent d =
     (truthy d \<and>
      typeof_string (js_get d ''type'') \<and>
      typeof_string (js_get d ''channel'') \<and>
      js_get d ''data'' \<noteq> JUndefined \<and>
      typeof_string (js_get d ''timestamp''))"

text \<open>The event that \<^verbatim>\<open>processLegacyEvent\<close> builds. The first read, \<^verbatim>\<open>data.type\<close>,
  throws on \<^verbatim>\<open>null\<close>; once it has returned, the later reads cannot throw.\<close>

definition legacy_event :: "platform \<Rightarrow> int \<Rightarrow> jsval \<Rightarrow> exn + jsval" where
  "legacy_event pf now d =
     (case js_prop d ''type'' of
        Inl e \<Rightarrow> Inl e
      | Inr ty \<Rightarrow>
          if ty = JStr ''transaction'' then
            Inr (JObj [(''type'', ty),
                       (''channel'', JStr ''transactions''),
                       (''data'', js_get d ''data''),
                       (''timestamp'', js_or (js_get d ''timestamp'') (JStr (toISOString pf now))),
                       (''source'', JStr ''legacy-websocket'')])
          else if ty = JStr ''notification_popup'' then
            Inr (JObj [(''type'', ty),
                       (''channel'', JStr ''notifications''),
                       (''data'', js_get d ''data''),
                       (''timestamp'', js_or (js_get d ''timestamp'') (JStr (toISOString pf now))),
                       (''source'', JStr ''legacy-websocket'')])
          else
            Inr (JObj [(''type'', js_or ty (JStr ''unknown'')),
                       (''channel'', JStr ''system''),
                       (''data'', d),
                       (''timestamp'', JStr (toISOString pf now)),
                       (''source'', JStr ''legacy-websocket'')]))"

definition processLegacyEvent ::
  "platform \<Rightarrow> int \<Rightarrow> jsval \<Rightarrow> CedarStreamService \<Rightarrow> exn + CedarStreamService"
where
  "processLegacyEvent pf now d s =
     (case legacy_event pf now d of
        Inl e \<Rightarrow> Inl e
      | Inr cedarEvent \<Rightarrow> processCedarEvent pf cedarEvent s)"

section \<open>Metrics\<close>

definition recordLatency :: "number \<Rightarrow> CedarStreamService \<Rightarrow> CedarStreamService" where
  "recordLatency latency s =
     (let h = latencyHistory s @ [latency]
      in s\<lparr>latencyHistory := (if length h > 100 then tl h else h)\<rparr>)"

fun num_add :: "number \<Rightarrow> number \<Rightarrow> number" where
  "num_add (Finite a) (Finite b) = Finite (a + b)"
| "num_add a b = NaN"

fun num_div :: "number \<Rightarrow> nat \<Rightarrow> number" where
  "num_div (Finite a) n = Finite (a / real n)"
| "num_div NaN n = NaN"

definition calculateAverageLatency :: "CedarStreamService \<Rightarrow> number" where
  "calculateAverageLatency s =
     (if length (latencyHistory s) = 0 then Finite 0
      else num_div (foldl num_add (Finite 0) (latencyHistory s)) (length (latencyHistory s)))"

definition getMetrics :: "int \<Rightarrow> CedarStreamService \<Rightarrow> CedarStreamMetrics" where
  "getMetrics now s =
     (metrics s)
       \<lparr> connectionUptime := (if status s = Connected then now - connectionStartTime s else 0),
         averageLatency := calculateAverageLatency s \<rparr>"

text \<open>The \<^verbatim>\<open>catch\<close> block of \<^verbatim>\<open>handleMessage\<close>.\<close>

definition message_failed :: "CedarStreamService \<Rightarrow> CedarStreamService" where
  "message_failed s =
     (let s1 = log ''Error processing message'' s
      in s1\<lparr>metrics := (metrics s1)\<lparr>errorsCount := errorsCount (metrics s1) + 1\<rparr>\<rparr>)"

text \<open>An inbound frame is given by what \<^verbatim>\<open>JSON.parse(event.data)\<close> does with it:
  \<open>None\<close> when it throws. \<open>t0\<close> is the clock when the frame arrives, \<open>t1\<close> the clock
  after dispatch. Both decoders throw, if at all, before they change anything, so the
  \<^verbatim>\<open>catch\<close> block runs on the state reached before the decoder was entered.\<close>

definition handleMessage ::
  "platform \<Rightarrow> jsval option \<Rightarrow> int \<Rightarrow> int \<Rightarrow> CedarStreamService \<Rightarrow> CedarStreamService"
where
  "handleMessage pf frame t0 t1 s =
     (case frame of
        None \<Rightarrow> message_failed s
      | Some d \<Rightarrow>
          (let s1 = s\<lparr>metrics := (metrics s)
                      \<lparr> messagesReceived := messagesReceived (metrics s) + 1,
                        lastMessageTime := toISOString pf t0 \<rparr>\<rparr>
           in case (if isCedarEvent d then processCedarEvent pf d s1
                    else processLegacyEvent pf t0 d s1) of
                Inl e \<Rightarrow> message_failed s1
              | Inr s2 \<Rightarrow>
                  recordLatency (Finite (of_int (t1 - t0)))
                    (s2\<lparr>metrics := (metrics s2)
                        \<lparr>messagesProcessed := messagesProcessed (metrics s2) + 1\<rparr>\<rparr>)))"

definition handleCedarEvent ::
  "platform \<Rightarrow> jsval option \<Rightarrow> CedarStreamService \<Rightarrow> CedarStreamService"
where
  "handleCedarEvent pf frame s =
     (case frame of
        None \<Rightarrow> log ''Error processing Cedar event'' s
      | Some cedarEvent \<Rightarrow>
          (case processCedarEvent pf cedarEvent s of
             Inl e \<Rightarrow> log ''Error processing Cedar event'' s
           | Inr s1 \<Rightarrow> s1))"

definition handleHeartbeat ::
  "platform \<Rightarrow> jsval option \<Rightarrow> int \<Rightarrow> CedarStreamService \<Rightarrow> CedarStreamService"
where
  "handleHeartbeat pf frame now s =
     (case frame of
        None \<Rightarrow> log ''Error processing heartbeat'' s
      | Some heartbeat \<Rightarrow>
          (let s1 = log ''Heartbeat received'' s
           in case js_prop heartbeat ''timestamp'' of
                Inl e \<Rightarrow> log ''Error processing heartbeat'' s1
              | Inr ts \<Rightarrow>
                  if truthy ts then
                    recordLatency
                      (case date_getTime pf ts of
                         None \<Rightarrow> NaN
                       | Some t \<Rightarrow> Finite (of_int (now - t))) s1
                  else s1))"

section \<open>Reconnection, heartbeat, connection\<close>

definition scheduleReconnect :: "platform \<Rightarrow> CedarStreamService \<Rightarrow> CedarStreamService" where
  "scheduleReconnect pf s =
     (if reconnectTimer s then s
      else
        (let s1 = setStatus pf Reconnecting s;
             s2 = s1\<lparr>reconnectAttempts := reconnectAttempts s1 + 1\<rparr>;
             delay = num_or (reconnectInterval (config s2)) 3000;
             s3 = log ''Scheduling reconnect attempt'' s2;
             s4 = (do_effect (SetTimeout delay) s3)\<lparr>reconnectTimer := True\<rparr>
         in emit pf Ev_reconnect (ReconnectInfo (reconnectAttempts s4) delay) s4))"

text \<open>The test of \<^verbatim>\<open>handleError\<close>: \<^verbatim>\<open>this.reconnectAttempts < (this.config.maxReconnectAttempts || 5)\<close>.\<close>

definition may_retry :: "CedarStreamService \<Rightarrow> bool" where
  "may_retry s = (int (reconnectAttempts s) < num_or (maxReconnectAttempts (config s)) 5)"

definition handleError ::
  "platform \<Rightarrow> int \<Rightarrow> js_error \<Rightarrow> CedarStreamService \<Rightarrow> CedarStreamService"
where
  "handleError pf now err s =
     (let s1 = s\<lparr>metrics := (metrics s)\<lparr>errorsCount := errorsCount (metrics s) + 1\<rparr>\<rparr>;
          s2 = setStatus pf Error s1;
          streamError = \<lparr> err_code = str_or (e_code err) ''STREAM_ERROR'',
                          err_message = str_or (e_message err) ''Unknown stream error'',
                          err_timestamp = toISOString pf now,
                          err_context = err,
                          recoverable = True \<rparr>;
          s3 = emit pf Ev_error (ErrorInfo streamError) s2
      in if may_retry s3
         then scheduleReconnect pf s3
         else log ''Max reconnect attempts reached. Giving up.'' s3)"

definition startHeartbeat :: "CedarStreamService \<Rightarrow> CedarStreamService" where
  "startHeartbeat s =
     (if heartbeatTimer s then s
      else
        (let interval = num_or (heartbeatInterval (config s)) 30000
         in (do_effect (SetInterval interval) s)\<lparr>heartbeatTimer := True\<rparr>))"

text \<open>The promise of the \<^verbatim>\<open>async\<close> function \<^verbatim>\<open>connect\<close>. Its body has no \<^verbatim>\<open>await\<close>:
  it runs to its end when called, and the promise is resolved by its return and rejected
  by its \<^verbatim>\<open>throw\<close>.\<close>

datatype promise = Resolved | Rejected exn

text \<open>The \<^verbatim>\<open>catch\<close> block of \<^verbatim>\<open>connect\<close>.\<close>

definition connect_failed ::
  "platform \<Rightarrow> int \<Rightarrow> exn \<Rightarrow> js_error \<Rightarrow> CedarStreamService \<Rightarrow> promise \<times> CedarStreamService"
where
  "connect_failed pf now e err s =
     (let s1 = log ''Failed to connect Cedar-OS stream'' s
      in (Rejected e, handleError pf now err s1))"

definition connect :: "platform \<Rightarrow> int \<Rightarrow> CedarStreamService \<Rightarrow> promise \<times> CedarStreamService" where
  "connect pf now s =
     (if status s = Connected \<or> status s = Connecting then (Resolved, s)
      else
        (let s1 = setStatus pf Connecting s;
             s2 = s1\<lparr>connectionStartTime := now\<rparr>
         in if \<not> url_ok pf (endpoint (config s2)) then
              connect_failed pf now TypeError
                \<lparr>e_code = None, e_message = Some ''Invalid URL''\<rparr> s2
            else if \<not> es_ok pf (endpoint (config s2)) then
              connect_failed pf now SyntaxError
                \<lparr>e_code = None, e_message = Some ''Cannot open EventSource''\<rparr> s2
            else
              (Resolved,
               (do_effect (NewEventSource (endpoint (config s2)) (channels (config s2))) s2)
                 \<lparr>eventSource := True\<rparr>)))"

text \<open>The callbacks that \<^verbatim>\<open>connect\<close> and \<^verbatim>\<open>scheduleReconnect\<close> install.\<close>

definition onopen :: "platform \<Rightarrow> CedarStreamService \<Rightarrow> CedarStreamService" where
  "onopen pf s =
     (let s1 = log ''Cedar-OS stream connected successfully'' s;
          s2 = setStatus pf Connected s1;
          s3 = s2\<lparr>reconnectAttempts := 0\<rparr>;
          s4 = startHeartbeat s3
      in emit pf Ev_connect NoData s4)"

definition onerror :: "platform \<Rightarrow> int \<Rightarrow> js_error \<Rightarrow> CedarStreamService \<Rightarrow> CedarStreamService" where
  "onerror pf now err s = handleError pf now err (log ''Cedar-OS stream error'' s)"

definition reconnect_timer_fired :: "platform \<Rightarrow> int \<Rightarrow> CedarStreamService \<Rightarrow> CedarStreamService" where
  "reconnect_timer_fired pf now s = snd (connect pf now (s\<lparr>reconnectTimer := False\<rparr>))"

definition disconnect :: "platform \<Rightarrow> CedarStreamService \<Rightarrow> CedarStreamService" where
  "disconnect pf s =
     (let s0 = log ''Disconnecting Cedar-OS stream'' s;
          s1 = (if reconnectTimer s0
                then (do_effect ClearTimeout s0)\<lparr>reconnectTimer := False\<rparr> else s0);
          s2 = (if heartbeatTimer s1
                then (do_effect ClearInterval s1)\<lparr>heartbeatTimer := False\<rparr> else s1);
          s3 = (if eventSource s2
                then (do_effect CloseEventSource s2)\<lparr>eventSource := False\<rparr> else s2);
          s4 = setStatus pf Disconnected s3
      in emit pf Ev_disconnect NoData s4)"

section \<open>Runs of the client\<close>

text \<open>Everything that can happen to a client: a call of its interface, a callback of
  the transport, the reconnect timer. A timer that is not pending cannot fire. The
  callbacks of the transport are not tied to \<open>eventSource\<close>: a transport that
  \<^verbatim>\<open>connect\<close> has replaced is not closed and can still call back. \<^verbatim>\<open>send\<close> and the
  heartbeat tick \<^verbatim>\<open>sendHeartbeat\<close> post a request and neither read nor write a field of
  the client other than \<open>config\<close>; they are not part of the runs.\<close>

datatype input =
    CallConnect int
  | CallDisconnect
  | CallSubscribe string nat
  | CallUnsubscribe string "nat option"
  | CallOn CedarStreamEvent nat
  | CallOff CedarStreamEvent nat
  | TransportOpen
  | TransportError js_error int
  | TransportMessage "jsval option" int int
  | TransportCedarEvent "jsval option"
  | TransportHeartbeat "jsval option" int
  | ReconnectTimerFires int

fun step :: "platform \<Rightarrow> input \<Rightarrow> CedarStreamService \<Rightarrow> CedarStreamService" where
  "step pf (CallConnect now) s = snd (connect pf now s)"
| "step pf CallDisconnect s = disconnect pf s"
| "step pf (CallSubscribe c h) s = subscribe c h s"
| "step pf (CallUnsubscribe c h) s = unsubscribe c h s"
| "step pf (CallOn ev h) s = on ev h s"
| "step pf (CallOff ev h) s = off ev h s"
| "step pf TransportOpen s = onopen pf s"
| "step pf (TransportError err now) s = onerror pf now err s"
| "step pf (TransportMessage frame t0 t1) s = handleMessage pf frame t0 t1 s"
| "step pf (TransportCedarEvent frame) s = handleCedarEvent pf frame s"
| "step pf (TransportHeartbeat frame now) s = handleHeartbeat pf frame now s"
| "step pf (ReconnectTimerFires now) s =
     (if reconnectTimer s then reconnect_timer_fired pf now s else s)"

definition run :: "platform \<Rightarrow> input list \<Rightarrow> CedarStreamService \<Rightarrow> CedarStreamService" where
  "run pf ins s = foldl (\<lambda>s i. step pf i s) s ins"


text \<open>The timers and transports alive on the platform, counted from the trace.\<close>

definition live_intervals :: "effect list \<Rightarrow> int" where
  "live_intervals tr =
     int (length (filter (\<lambda>e. case e of SetInterval i \<Rightarrow> True | _ \<Rightarrow> False) tr))
     - int (length (filter (\<lambda>e. e = ClearInterval) tr))"

definition intervals_cleared :: "effect list \<Rightarrow> nat" where
  "intervals_cleared tr = length (filter (\<lambda>e. e = ClearInterval) tr)"

definition timeouts_set :: "effect list \<Rightarrow> nat" where
  "timeouts_set tr = length (filter (\<lambda>e. case e of SetTimeout d \<Rightarrow> True | _ \<Rightarrow> False) tr)"

definition handler_calls :: "effect list \<Rightarrow> (nat \<times> jsval) list" where
  "handler_calls tr = concat (map (\<lambda>e. case e of HandlerCall h ev \<Rightarrow> [(h, ev)] | _ \<Rightarrow> []) tr)"

definition listener_calls :: "CedarStreamEvent \<Rightarrow> effect list \<Rightarrow> (nat \<times> payload) list" where
  "listener_calls ev tr =
     concat (map (\<lambda>e. case e of ListenerCall h ev' d \<Rightarrow> (if ev' = ev then [(h, d)] else [])
                            | _ \<Rightarrow> []) tr)"

section \<open>Concrete inputs\<close>

text \<open>A platform on which every endpoint but the empty one is a good address, on which
  handler \<open>2\<close> and listener \<open>2\<close> throw whenever they are called, and on which handler
  \<open>1\<close> subscribes another handler and listener \<open>1\<close> registers another listener when
  they are called.\<close>

definition demo_platform :: platform where
  "demo_platform =
     \<lparr> url_ok = (\<lambda>u. u \<noteq> []),
       es_ok = (\<lambda>u. True),
       handler_does = (\<lambda>h ev. if h = 1 then [ReSubscribe ''system'' 8] else []),
       handler_throws = (\<lambda>h ev. h = 2),
       listener_does = (\<lambda>h d. if h = 1 then [ReOn Ev_error 7] else []),
       listener_throws = (\<lambda>h d. h = 2),
       toISOString = (\<lambda>t. ''now''),
       date_getTime = (\<lambda>v. None) \<rparr>"

text \<open>The same platform with callbacks that take themselves off the list they are
  called from: handler \<open>4\<close> on channel \<open>notifications\<close>, listener \<open>4\<close> of \<open>disconnect\<close>.\<close>

definition demo_leaving_platform :: platform where
  "demo_leaving_platform =
     demo_platform
       \<lparr> handler_does :=
           (\<lambda>h ev. if h = 4 then [ReUnsubscribe ''notifications'' (Some 4)] else []),
         listener_does := (\<lambda>h d. if h = 4 then [ReOff Ev_disconnect 4] else []) \<rparr>"

definition demo_config :: CedarStreamConfig where
  "demo_config =
     \<lparr> endpoint = ''http://localhost:8000'',
       channels = [''transactions'', ''notifications'', ''system''],
       reconnectInterval = Some 2000,
       maxReconnectAttempts = Some 2,
       heartbeatInterval = Some 15000,
       debug = Some True \<rparr>"

definition demo_event :: jsval where
  "demo_event =
     JObj [(''type'', JStr ''notification_popup''),
           (''channel'', JStr ''notifications''),
           (''data'', JObj [(''msg'', JStr ''x'')]),
           (''timestamp'', JStr ''2024-01-01T00:00:00Z'')]"

definition demo_error :: js_error where
  "demo_error = \<lparr>e_code = None, e_message = None\<rparr>"

definition demo_connected :: CedarStreamService where
  "demo_connected = run demo_platform [CallConnect 0, TransportOpen] (new_service demo_config)"


definition demo_legacy_frame :: jsval where
  "demo_legacy_frame =
     JObj [(''type'', JStr ''system_status''),
           (''data'', JObj [(''status'', JStr ''healthy'')]),
           (''timestamp'', JStr ''2024-01-01T00:00:00Z'')]"

definition demo_transaction_frame :: jsval where
  "demo_transaction_frame =
     JObj [(''type'', JStr ''transaction''),
           (''data'', JObj [(''amount'', JNum 5)]),
           (''timestamp'', JStr ''2024-01-01T00:00:00Z'')]"

definition demo_subscribed :: CedarStreamService where
  "demo_subscribed =
     run demo_platform
       [CallSubscribe ''notifications'' 1, CallSubscribe ''notifications'' 2,
        CallSubscribe ''transactions'' 3]
       (new_service demo_config)"

definition demo_frames :: "input list" where
  "demo_frames =
     [CallSubscribe ''notifications'' 2,
      TransportMessage None 0 1,
      TransportMessage (Some demo_event) 2 3]"


section \<open>Notions used in the statements\<close>

text \<open>The transports opened so far, counted from the trace.\<close>

definition transports_opened :: "effect list \<Rightarrow> nat" where
  "transports_opened tr =
     length (filter (\<lambda>e. case e of NewEventSource u cs \<Rightarrow> True | _ \<Rightarrow> False) tr)"

text \<open>The fields of a client other than its two tables and its trace.\<close>

definition same_core :: "CedarStreamService \<Rightarrow> CedarStreamService \<Rightarrow> bool" where
  "same_core s s' =
     (config s' = config s \<and> status s' = status s \<and> eventSource s' = eventSource s \<and>
      reconnectAttempts s' = reconnectAttempts s \<and> reconnectTimer s' = reconnectTimer s \<and>
      heartbeatTimer s' = heartbeatTimer s \<and> metrics s' = metrics s \<and>
      connectionStartTime s' = connectionStartTime s \<and> latencyHistory s' = latencyHistory s)"

fun is_log :: "effect \<Rightarrow> bool" where
  "is_log (ConsoleLog m) = True"
| "is_log e = False"

fun is_callback :: "effect \<Rightarrow> bool" where
  "is_callback (ConsoleLog m) = True"
| "is_callback (HandlerCall h ev) = True"
| "is_callback (ListenerCall h ev d) = True"
| "is_callback e = False"

text \<open>From \<open>s\<close> to \<open>s'\<close> nothing but the two tables has changed, and the trace has
  grown by effects of the kind \<open>P\<close>.\<close>

definition ext :: "(effect \<Rightarrow> bool) \<Rightarrow> CedarStreamService \<Rightarrow> CedarStreamService \<Rightarrow> bool" where
  "ext P s s' = (same_core s s' \<and> (\<exists>tr. trace s' = trace s @ tr \<and> list_all P tr))"

text \<open>The store of handler arrays is well formed: every array in the table has been
  allocated, and no two channels share one.\<close>

definition wf_arrays :: "CedarStreamService \<Rightarrow> bool" where
  "wf_arrays s =
     ((\<forall>c a. channelHandlers s c = Some a \<longrightarrow> a < next_array s) \<and>
      (\<forall>c c' a. channelHandlers s c = Some a \<and> channelHandlers s c' = Some a \<longrightarrow> c = c'))"

text \<open>What a dispatch on channel \<open>c\<close> relies on while it walks the array at \<open>a\<close>: the
  array is allocated, no other channel has it, and it still begins with the handlers
  \<open>L\<close> it had at the start.\<close>

definition walking :: "nat \<Rightarrow> string \<Rightarrow> nat list \<Rightarrow> CedarStreamService \<Rightarrow> bool" where
  "walking a c L s =
     (wf_arrays s \<and> a < next_array s \<and> (\<forall>c'. channelHandlers s c' = Some a \<longrightarrow> c' = c)
      \<and> (\<exists>extra. arrays s a = L @ extra))"




definition demo_leaving_handlers :: CedarStreamService where
  "demo_leaving_handlers =
     subscribe ''notifications'' 3 (subscribe ''notifications'' 4 (new_service demo_config))"

section \<open>Frames: what a callback leaves unchanged\<close>

lemma same_core_refl [simp]: "same_core s s"
  by (simp add: same_core_def)

lemma same_core_trans: "same_core s t \<Longrightarrow> same_core t u \<Longrightarrow> same_core s u"
  by (simp add: same_core_def)

lemma ext_refl [simp]: "ext P s s"
  by (simp add: ext_def)

lemma ext_trans: "ext P s t \<Longrightarrow> ext P t u \<Longrightarrow> ext P s u"
  by (auto simp add: ext_def dest: same_core_trans)

lemma ext_mono: "ext is_log s t \<Longrightarrow> ext is_callback s t"
proof -
  have "is_log e \<Longrightarrow> is_callback e" for e by (cases e) simp_all
  then have "list_all is_log tr \<Longrightarrow> list_all is_callback tr" for tr
    by (induction tr) simp_all
  then show "ext is_log s t \<Longrightarrow> ext is_callback s t"
    by (auto simp add: ext_def)
qed

lemma ext_log: "ext is_log s (log m s)"
  by (simp add: ext_def log_def do_effect_def same_core_def)

lemma ext_on: "ext is_log s (on ev h s)"
  by (simp add: ext_def on_def Let_def same_core_def)

lemma ext_off: "ext is_log s (off ev h s)"
  by (simp add: ext_def off_def same_core_def split: option.splits)

lemma ext_subscribe: "ext is_log s (subscribe c h s)"
  by (simp add: ext_def subscribe_def Let_def log_def do_effect_def same_core_def split: option.splits)

lemma ext_unsubscribe: "ext is_log s (unsubscribe c h s)"
  by (simp add: ext_def unsubscribe_def Let_def log_def do_effect_def same_core_def split: option.splits)

lemma ext_reenter: "ext is_log s (reenter op s)"
  by (cases op) (simp_all add: ext_on ext_off ext_subscribe ext_unsubscribe)

lemma ext_reenter_all: "ext is_log s (reenter_all ops s)"
  unfolding reenter_all_def
proof (induction ops arbitrary: s)
  case Nil
  show ?case by simp
next
  case (Cons op ops)
  show ?case using ext_trans[OF ext_reenter[of s op] Cons[of "reenter op s"]] by simp
qed

lemma ext_call_effect: "is_callback e \<Longrightarrow> ext is_callback s (do_effect e s)"
  by (simp add: ext_def do_effect_def same_core_def)

lemma ext_listener_called: "ext is_callback s (listener_called pf ev d h s)"
proof -
  let ?s1 = "do_effect (ListenerCall h ev d) s"
  let ?s2 = "reenter_all (listener_does pf h d) ?s1"
  have a: "ext is_callback s ?s1" by (simp add: ext_call_effect)
  have b: "ext is_callback ?s1 ?s2" by (rule ext_mono[OF ext_reenter_all])
  have c: "ext is_callback ?s2 (log ''Error in event handler'' ?s2)"
    by (rule ext_mono[OF ext_log])
  show ?thesis
    using ext_trans[OF a b] ext_trans[OF ext_trans[OF a b] c]
    by (simp add: listener_called_def call_listener_def)
qed

lemma ext_forEach_listener: "ext is_callback s (forEach_listener pf ev d k r s)"
proof (induction r arbitrary: k s)
  case 0
  show ?case by simp
next
  case (Suc r)
  show ?case
  proof (cases "k < length (listeners_of s ev)")
    case True
    let ?t = "listener_called pf ev d (listeners_of s ev ! k) s"
    have "ext is_callback s ?t" by (rule ext_listener_called)
    from ext_trans[OF this Suc[of ?t "Suc k"]] True show ?thesis by simp
  next
    case False
    with Suc[of s "Suc k"] show ?thesis by simp
  qed
qed

lemma ext_emit: "ext is_callback s (emit pf ev d s)"
  by (simp add: emit_def ext_forEach_listener)

lemma ext_handler_called: "ext is_callback s (handler_called pf ev h s)"
proof -
  let ?s1 = "do_effect (HandlerCall h ev) s"
  let ?s2 = "reenter_all (handler_does pf h ev) ?s1"
  have a: "ext is_callback s ?s1" by (simp add: ext_call_effect)
  have b: "ext is_callback ?s1 ?s2" by (rule ext_mono[OF ext_reenter_all])
  have c: "ext is_callback ?s2 (log ''Error in channel handler'' ?s2)"
    by (rule ext_mono[OF ext_log])
  show ?thesis
    using ext_trans[OF a b] ext_trans[OF ext_trans[OF a b] c]
    by (simp add: handler_called_def call_handler_def)
qed

lemma ext_forEach_handler: "ext is_callback s (forEach_handler pf ev a k r s)"
proof (induction r arbitrary: k s)
  case 0
  show ?case by simp
next
  case (Suc r)
  show ?case
  proof (cases "k < length (arrays s a)")
    case True
    let ?t = "handler_called pf ev (arrays s a ! k) s"
    have "ext is_callback s ?t" by (rule ext_handler_called)
    from ext_trans[OF this Suc[of ?t "Suc k"]] True show ?thesis by simp
  next
    case False
    with Suc[of s "Suc k"] show ?thesis by simp
  qed
qed

lemma ext_dispatch: "ext is_callback s (dispatch pf ev key s)"
  by (simp add: dispatch_def ext_forEach_handler split: jsval.splits option.splits)

lemma log_eq:
  "log msg s =
     s\<lparr>trace := trace s @ (if debug (config s) = Some True then [ConsoleLog msg] else [])\<rparr>"
  by (simp add: log_def do_effect_def)

lemma timeouts_set_append [simp]: "timeouts_set (a @ b) = timeouts_set a + timeouts_set b"
  by (simp add: timeouts_set_def)

lemma timeouts_set_simps [simp]:
  "timeouts_set [] = 0"
  "timeouts_set (SetTimeout i # tr) = Suc (timeouts_set tr)"
  "timeouts_set (ClearTimeout # tr) = timeouts_set tr"
  "timeouts_set (SetInterval i # tr) = timeouts_set tr"
  "timeouts_set (ClearInterval # tr) = timeouts_set tr"
  "timeouts_set (CloseEventSource # tr) = timeouts_set tr"
  "timeouts_set (ConsoleLog m # tr) = timeouts_set tr"
  "timeouts_set (NewEventSource u cs # tr) = timeouts_set tr"
  "timeouts_set (ListenerCall h ev d # tr) = timeouts_set tr"
  "timeouts_set (HandlerCall h e # tr) = timeouts_set tr"
  by (simp_all add: timeouts_set_def)

lemma transports_opened_append [simp]:
  "transports_opened (a @ b) = transports_opened a + transports_opened b"
  by (simp add: transports_opened_def)

lemma transports_opened_simps [simp]:
  "transports_opened [] = 0"
  "transports_opened (NewEventSource u cs # tr) = Suc (transports_opened tr)"
  "transports_opened (SetTimeout i # tr) = transports_opened tr"
  "transports_opened (ClearTimeout # tr) = transports_opened tr"
  "transports_opened (SetInterval i # tr) = transports_opened tr"
  "transports_opened (ClearInterval # tr) = transports_opened tr"
  "transports_opened (CloseEventSource # tr) = transports_opened tr"
  "transports_opened (ConsoleLog m # tr) = transports_opened tr"
  "transports_opened (ListenerCall h ev d # tr) = transports_opened tr"
  "transports_opened (HandlerCall h e # tr) = transports_opened tr"
  by (simp_all add: transports_opened_def)

lemma intervals_cleared_append [simp]:
  "intervals_cleared (a @ b) = intervals_cleared a + intervals_cleared b"
  by (simp add: intervals_cleared_def)

lemma intervals_cleared_simps [simp]:
  "intervals_cleared [] = 0"
  "intervals_cleared (ClearInterval # tr) = Suc (intervals_cleared tr)"
  "intervals_cleared (SetInterval i # tr) = intervals_cleared tr"
  "intervals_cleared (SetTimeout i # tr) = intervals_cleared tr"
  "intervals_cleared (ClearTimeout # tr) = intervals_cleared tr"
  "intervals_cleared (CloseEventSource # tr) = intervals_cleared tr"
  "intervals_cleared (ConsoleLog m # tr) = intervals_cleared tr"
  "intervals_cleared (NewEventSource u cs # tr) = intervals_cleared tr"
  "intervals_cleared (ListenerCall h ev d # tr) = intervals_cleared tr"
  "intervals_cleared (HandlerCall h e # tr) = intervals_cleared tr"
  by (simp_all add: intervals_cleared_def)

lemma live_intervals_append [simp]:
  "live_intervals (a @ b) = live_intervals a + live_intervals b"
  by (simp add: live_intervals_def)

lemma live_intervals_simps [simp]:
  "live_intervals [] = 0"
  "live_intervals (ClearInterval # tr) = live_intervals tr - 1"
  "live_intervals (SetInterval i # tr) = live_intervals tr + 1"
  "live_intervals (SetTimeout i # tr) = live_intervals tr"
  "live_intervals (ClearTimeout # tr) = live_intervals tr"
  "live_intervals (CloseEventSource # tr) = live_intervals tr"
  "live_intervals (ConsoleLog m # tr) = live_intervals tr"
  "live_intervals (NewEventSource u cs # tr) = live_intervals tr"
  "live_intervals (ListenerCall h ev d # tr) = live_intervals tr"
  "live_intervals (HandlerCall h e # tr) = live_intervals tr"
  by (simp_all add: live_intervals_def)

lemma handler_calls_append: "handler_calls (a @ b) = handler_calls a @ handler_calls b"
  by (simp add: handler_calls_def)

lemma listener_calls_append:
  "listener_calls ev (a @ b) = listener_calls ev a @ listener_calls ev b"
  by (simp add: listener_calls_def)

lemma handler_calls_simps [simp]:
  "handler_calls [] = []"
  "handler_calls (ConsoleLog m # tr) = handler_calls tr"
  "handler_calls (ListenerCall h ev d # tr) = handler_calls tr"
  "handler_calls (HandlerCall h e # tr) = (h, e) # handler_calls tr"
  by (simp_all add: handler_calls_def)

lemma listener_calls_simps [simp]:
  "listener_calls ev [] = []"
  "listener_calls ev (ConsoleLog m # tr) = listener_calls ev tr"
  "listener_calls ev (ClearTimeout # tr) = listener_calls ev tr"
  "listener_calls ev (ClearInterval # tr) = listener_calls ev tr"
  "listener_calls ev (CloseEventSource # tr) = listener_calls ev tr"
  "listener_calls ev (SetTimeout i # tr) = listener_calls ev tr"
  "listener_calls ev (SetInterval i # tr) = listener_calls ev tr"
  "listener_calls ev (NewEventSource u cs # tr) = listener_calls ev tr"
  "listener_calls ev (HandlerCall h e # tr) = listener_calls ev tr"
  "listener_calls ev (ListenerCall h ev' d # tr)
     = (if ev' = ev then [(h, d)] else []) @ listener_calls ev tr"
  by (simp_all add: listener_calls_def)

lemma callbacks_measures:
  "list_all is_callback tr \<Longrightarrow>
     timeouts_set tr = 0 \<and> transports_opened tr = 0 \<and> intervals_cleared tr = 0
     \<and> live_intervals tr = 0"
proof (induction tr)
  case Nil
  show ?case by simp
next
  case (Cons e tr)
  then show ?case by (cases e) simp_all
qed

lemma logs_calls:
  "list_all is_log tr \<Longrightarrow> handler_calls tr = [] \<and> listener_calls ev tr = []"
proof (induction tr)
  case Nil
  show ?case by simp
next
  case (Cons e tr)
  then show ?case by (cases e) simp_all
qed

lemma ext_fields:
  assumes "ext P s s'"
  shows "config s' = config s" "status s' = status s" "eventSource s' = eventSource s"
    "reconnectAttempts s' = reconnectAttempts s" "reconnectTimer s' = reconnectTimer s"
    "heartbeatTimer s' = heartbeatTimer s" "metrics s' = metrics s"
    "connectionStartTime s' = connectionStartTime s" "latencyHistory s' = latencyHistory s"
  using assms by (simp_all add: ext_def same_core_def)

lemma ext_measures:
  assumes "ext is_callback s s'"
  shows "timeouts_set (trace s') = timeouts_set (trace s)"
    "transports_opened (trace s') = transports_opened (trace s)"
    "intervals_cleared (trace s') = intervals_cleared (trace s)"
    "live_intervals (trace s') = live_intervals (trace s)"
  using assms callbacks_measures by (auto simp add: ext_def)

lemma ext_calls:
  assumes "ext is_log s s'"
  shows "handler_calls (trace s') = handler_calls (trace s)"
    "listener_calls ev (trace s') = listener_calls ev (trace s)"
  using assms logs_calls by (auto simp add: ext_def handler_calls_append listener_calls_append)

lemmas emit_core [simp] = ext_fields[OF ext_emit] ext_measures[OF ext_emit]
lemmas dispatch_core [simp] = ext_fields[OF ext_dispatch] ext_measures[OF ext_dispatch]
lemmas reenter_all_core [simp] =
  ext_fields[OF ext_reenter_all] ext_measures[OF ext_mono[OF ext_reenter_all]]
  ext_calls[OF ext_reenter_all]
lemmas registry_core [simp] =
  ext_fields[OF ext_on] ext_fields[OF ext_off] ext_fields[OF ext_subscribe]
  ext_fields[OF ext_unsubscribe]
  ext_measures[OF ext_mono[OF ext_on]] ext_measures[OF ext_mono[OF ext_off]]
  ext_measures[OF ext_mono[OF ext_subscribe]] ext_measures[OF ext_mono[OF ext_unsubscribe]]
  ext_calls[OF ext_on] ext_calls[OF ext_off] ext_calls[OF ext_subscribe]
  ext_calls[OF ext_unsubscribe]

lemma ext_setStatus_rest:
  "ext is_callback (s\<lparr>status := st\<rparr>) (setStatus pf st s)"
proof (cases "status s = st")
  case True
  have "ext is_callback (s\<lparr>status := status s\<rparr>) s" by simp
  with True show ?thesis by (simp add: setStatus_def)
next
  case False
  let ?s1 = "s\<lparr>status := st\<rparr>"
  have a: "ext is_callback ?s1 (log ''Status changed'' ?s1)"
    by (rule ext_mono[OF ext_log])
  have b: "ext is_callback (log ''Status changed'' ?s1)
             (emit pf Ev_status_change (StatusChange (status s) st) (log ''Status changed'' ?s1))"
    by (rule ext_emit)
  from ext_trans[OF a b] False show ?thesis by (simp add: setStatus_def Let_def)
qed

lemma setStatus_core [simp]:
  "status (setStatus pf st s) = st"
  "config (setStatus pf st s) = config s"
  "eventSource (setStatus pf st s) = eventSource s"
  "reconnectAttempts (setStatus pf st s) = reconnectAttempts s"
  "reconnectTimer (setStatus pf st s) = reconnectTimer s"
  "heartbeatTimer (setStatus pf st s) = heartbeatTimer s"
  "metrics (setStatus pf st s) = metrics s"
  "connectionStartTime (setStatus pf st s) = connectionStartTime s"
  "latencyHistory (setStatus pf st s) = latencyHistory s"
  "timeouts_set (trace (setStatus pf st s)) = timeouts_set (trace s)"
  "transports_opened (trace (setStatus pf st s)) = transports_opened (trace s)"
  "intervals_cleared (trace (setStatus pf st s)) = intervals_cleared (trace s)"
  "live_intervals (trace (setStatus pf st s)) = live_intervals (trace s)"
  using ext_fields[OF ext_setStatus_rest, of pf st s] ext_measures[OF ext_setStatus_rest, of pf st s]
  by simp_all

section \<open>Idempotent connect\<close>

text \<open>
  Claim C7. When the status is already \<open>Connected\<close> or \<open>Connecting\<close>, \<^verbatim>\<open>connect()\<close>
  resolves at once and returns the state it was given: no field changes and the trace,
  which would record a new \<^verbatim>\<open>EventSource\<close>, is the same.
\<close>

theorem connect_idempotent:
  "status s = Connected \<or> status s = Connecting \<Longrightarrow> connect pf now s = (Resolved, s)"
  by (simp add: connect_def)

lemmas demo_simps =
  run_def connect_def onopen_def onerror_def handleError_def scheduleReconnect_def
  reconnect_timer_fired_def setStatus_def emit_def listeners_of_def log_def do_effect_def
  startHeartbeat_def new_service_def demo_config_def demo_platform_def demo_error_def
  default_opt_def num_or_def str_or_def call_listener_def listener_called_def reenter_all_def may_retry_def Let_def

theorem connect_idempotent_witness:
  "(status demo_connected = Connected \<or> status demo_connected = Connecting)
   \<and> connect demo_platform 7 demo_connected = (Resolved, demo_connected)"
  using connect_idempotent[of demo_connected demo_platform 7]
  by (simp add: demo_connected_def demo_simps)

section \<open>Latency window\<close>

lemma foldl_num_add: "foldl num_add (Finite a) (map Finite ys) = Finite (a + sum_list ys)"
  by (induction ys arbitrary: a) (simp_all add: add.assoc)

lemma fifo_step:
  "drop (length (drop (length l - 100) l) + 1 - 100) (drop (length l - 100) l @ [x])
     = drop (length (l @ [x]) - 100) (l @ [x])"
proof (cases "length l < 100")
  case True
  then show ?thesis by simp
next
  case False
  then have n: "100 \<le> length l" by simp
  then have a: "length (drop (length l - 100) l) + 1 - 100 = 1" by simp
  have "drop 1 (drop (length l - 100) l @ [x]) = drop 1 (drop (length l - 100) l) @ [x]"
    using n by simp
  also have "\<dots> = drop (length l - 99) l @ [x]"
  proof -
    have "Suc (length l - 100) = length l - 99" using n by arith
    then show ?thesis by simp
  qed
  also have "\<dots> = drop (length (l @ [x]) - 100) (l @ [x])"
    using n by simp
  finally show ?thesis using a by simp
qed

lemma recordLatency_drop:
  "length (latencyHistory s) \<le> 100 \<Longrightarrow>
   latencyHistory (recordLatency x s)
     = drop (length (latencyHistory s) + 1 - 100) (latencyHistory s @ [x])"
  by (cases "latencyHistory s") (auto simp add: recordLatency_def Let_def drop_Cons')

lemma record_all:
  assumes "length (latencyHistory s) \<le> 100"
  shows "latencyHistory (foldl (\<lambda>s x. recordLatency x s) s xs)
     = drop (length (latencyHistory s @ xs) - 100) (latencyHistory s @ xs)"
proof (induction xs rule: rev_induct)
  case Nil
  show ?case using assms by simp
next
  case (snoc x xs)
  let ?s = "foldl (\<lambda>s x. recordLatency x s) s xs"
  let ?l = "latencyHistory s @ xs"
  have h: "latencyHistory ?s = drop (length ?l - 100) ?l"
    using snoc by simp
  then have l: "length (latencyHistory ?s) \<le> 100" by simp
  have "latencyHistory (recordLatency x ?s)
          = drop (length (latencyHistory ?s) + 1 - 100) (latencyHistory ?s @ [x])"
    by (rule recordLatency_drop[OF l])
  also have "\<dots> = drop (length (?l @ [x]) - 100) (?l @ [x])"
    unfolding h by (rule fifo_step)
  finally show ?case by simp
qed

lemma average_finite:
  "latencyHistory s = map Finite ys \<Longrightarrow>
   calculateAverageLatency s = Finite (if ys = [] then 0 else sum_list ys / real (length ys))"
  by (simp add: calculateAverageLatency_def foldl_num_add)

text \<open>
  Claim C8. Start from a buffer of at most 100 finite samples \<open>h\<close> (the empty buffer of a
  new client is one) and record the samples \<open>xs\<close>. The buffer then holds the most
  recent 100 samples of \<open>h @ xs\<close>, oldest first, so never more than 100, and the average
  that \<^verbatim>\<open>getMetrics\<close> reports is the arithmetic mean of exactly these; it is \<open>0\<close> when the
  buffer is empty. Numbers are exact here: the rounding of doubles is not modelled.
\<close>

theorem latency_window:
  assumes "latencyHistory s = map Finite h" and "length h \<le> 100"
  shows "latencyHistory (foldl (\<lambda>s x. recordLatency (Finite x) s) s xs)
           = map Finite (drop (length (h @ xs) - 100) (h @ xs))
       \<and> length (latencyHistory (foldl (\<lambda>s x. recordLatency (Finite x) s) s xs)) \<le> 100
       \<and> averageLatency (getMetrics now (foldl (\<lambda>s x. recordLatency (Finite x) s) s xs))
           = Finite (if h @ xs = [] then 0
                     else sum_list (drop (length (h @ xs) - 100) (h @ xs))
                          / real (length (drop (length (h @ xs) - 100) (h @ xs))))"
proof -
  let ?s' = "foldl (\<lambda>s x. recordLatency (Finite x) s) s xs"
  let ?w = "drop (length (h @ xs) - 100) (h @ xs)"
  have f: "?s' = foldl (\<lambda>s x. recordLatency x s) s (map Finite xs)"
    by (simp add: foldl_map)
  have l: "length (latencyHistory s) \<le> 100" using assms by simp
  have w: "latencyHistory ?s' = map Finite ?w"
    unfolding f using record_all[OF l, of "map Finite xs"] assms(1)
    by (simp add: drop_map)
  have "(length (h @ xs) \<le> length (h @ xs) - 100) = (length (h @ xs) = 0)" by arith
  then have e: "(?w = []) = (h @ xs = [])"
    by (simp only: drop_eq_Nil length_0_conv)
  show ?thesis
    using w average_finite[OF w] e by (simp add: getMetrics_def)
qed

theorem latency_window_witness:
  "latencyHistory (new_service demo_config) = map Finite []
   \<and> length ([] :: real list) \<le> 100
   \<and> latencyHistory (foldl (\<lambda>s x. recordLatency (Finite x) s) (new_service demo_config)
        (1000 # replicate 100 2)) = replicate 100 (Finite 2)
   \<and> averageLatency (getMetrics 0
        (foldl (\<lambda>s x. recordLatency (Finite x) s) (new_service demo_config)
           (1000 # replicate 100 2))) = Finite 2
   \<and> averageLatency (getMetrics 0 (new_service demo_config)) = Finite 0"
proof -
  have a: "latencyHistory (new_service demo_config) = map Finite []"
    by (simp add: new_service_def)
  have b: "length ([] :: real list) \<le> 100" by simp
  from latency_window[OF a b, of "1000 # replicate 100 2" 0]
       latency_window[OF a b, of "[]" 0]
  show ?thesis using a by (simp add: sum_list_replicate)
qed

section \<open>Counters of inbound frames\<close>

lemma metrics_basic [simp]:
  "metrics (log m s) = metrics s"
  "metrics (do_effect x s) = metrics s"
  by (simp_all add: log_eq do_effect_def)

lemma metrics_processCedarEvent:
  "processCedarEvent pf ev s = Inr s' \<Longrightarrow> metrics s' = metrics s"
  by (auto simp add: processCedarEvent_def split: sum.splits)

lemma metrics_processLegacyEvent:
  "processLegacyEvent pf now d s = Inr s' \<Longrightarrow> metrics s' = metrics s"
  by (auto simp add: processLegacyEvent_def metrics_processCedarEvent split: sum.splits)

lemma metrics_scheduleReconnect [simp]: "metrics (scheduleReconnect pf s) = metrics s"
  by (simp add: scheduleReconnect_def Let_def)

lemma metrics_handleError:
  "metrics (handleError pf now err s) = (metrics s)\<lparr>errorsCount := errorsCount (metrics s) + 1\<rparr>"
  by (simp add: handleError_def Let_def)

lemma metrics_connect:
  "messagesProcessed (metrics (snd (connect pf now s))) = messagesProcessed (metrics s)"
  "messagesReceived (metrics (snd (connect pf now s))) = messagesReceived (metrics s)"
  by (simp_all add: connect_def connect_failed_def Let_def metrics_handleError)

lemma metrics_message_failed:
  "metrics (message_failed s) = (metrics s)\<lparr>errorsCount := errorsCount (metrics s) + 1\<rparr>"
  by (simp add: message_failed_def Let_def)

lemma metrics_recordLatency [simp]: "metrics (recordLatency x s) = metrics s"
  by (simp add: recordLatency_def Let_def)

lemma processCedarEvent_ok:
  "ev \<noteq> JNull \<Longrightarrow> ev \<noteq> JUndefined \<Longrightarrow>
   processCedarEvent pf ev s = Inr (dispatch pf ev (js_get ev ''channel'') s)"
  by (simp add: processCedarEvent_def js_prop_def)

lemma legacy_event_ok:
  "d \<noteq> JNull \<Longrightarrow> d \<noteq> JUndefined \<Longrightarrow> \<exists>kvs. legacy_event pf now d = Inr (JObj kvs)"
  by (simp add: legacy_event_def js_prop_def)

lemma legacy_event_null:
  "legacy_event pf now JNull = Inl TypeError" "legacy_event pf now JUndefined = Inl TypeError"
  by (simp_all add: legacy_event_def js_prop_def)

lemma processLegacyEvent_ok:
  assumes "d \<noteq> JNull" "d \<noteq> JUndefined"
  shows "\<exists>ev. legacy_event pf now d = Inr ev \<and>
           processLegacyEvent pf now d s = Inr (dispatch pf ev (js_get ev ''channel'') s)"
proof -
  from legacy_event_ok[OF assms] obtain kvs where "legacy_event pf now d = Inr (JObj kvs)"
    by blast
  then show ?thesis
    by (simp add: processLegacyEvent_def processCedarEvent_ok)
qed

lemma isCedarEvent_null [simp]: "isCedarEvent JNull = False" "isCedarEvent JUndefined = False"
  by (simp_all add: isCedarEvent_def)

lemma handleMessage_unparsed:
  "handleMessage pf None t0 t1 s = message_failed s"
  by (simp add: handleMessage_def)

lemma handleMessage_null:
  "d = JNull \<or> d = JUndefined \<Longrightarrow>
   handleMessage pf (Some d) t0 t1 s =
     message_failed (s\<lparr>metrics := (metrics s)
                      \<lparr> messagesReceived := messagesReceived (metrics s) + 1,
                        lastMessageTime := toISOString pf t0 \<rparr>\<rparr>)"
  by (auto simp add: handleMessage_def Let_def processLegacyEvent_def legacy_event_null)

lemma handleMessage_parsed:
  assumes "d \<noteq> JNull" "d \<noteq> JUndefined"
  shows "\<exists>ev. handleMessage pf (Some d) t0 t1 s =
     (let s1 = s\<lparr>metrics := (metrics s)
                      \<lparr> messagesReceived := messagesReceived (metrics s) + 1,
                        lastMessageTime := toISOString pf t0 \<rparr>\<rparr>;
          s2 = dispatch pf ev (js_get ev ''channel'') s1
      in recordLatency (Finite (of_int (t1 - t0)))
                    (s2\<lparr>metrics := (metrics s2)
                        \<lparr>messagesProcessed := messagesProcessed (metrics s2) + 1\<rparr>\<rparr>))"
proof (cases "isCedarEvent d")
  case True
  then show ?thesis using assms
    by (intro exI[of _ d]) (simp add: handleMessage_def Let_def processCedarEvent_ok)
next
  case False
  let ?s1 = "s\<lparr>metrics := (metrics s)
                      \<lparr> messagesReceived := messagesReceived (metrics s) + 1,
                        lastMessageTime := toISOString pf t0 \<rparr>\<rparr>"
  from processLegacyEvent_ok[OF assms, of pf t0 ?s1] obtain ev where
    "processLegacyEvent pf t0 d ?s1 = Inr (dispatch pf ev (js_get ev ''channel'') ?s1)"
    by blast
  then show ?thesis using False
    by (intro exI[of _ ev]) (simp add: handleMessage_def Let_def)
qed

lemma handleMessage_counters:
  "messagesReceived (metrics (handleMessage pf frame t0 t1 s))
     = messagesReceived (metrics s) + (if frame = None then 0 else 1)"
  "messagesProcessed (metrics (handleMessage pf frame t0 t1 s))
     = messagesProcessed (metrics s) + (if frame = None \<or> frame = Some JNull \<or> frame = Some JUndefined then 0 else 1)"
  "errorsCount (metrics (handleMessage pf frame t0 t1 s))
     = errorsCount (metrics s) + (if frame = None \<or> frame = Some JNull \<or> frame = Some JUndefined then 1 else 0)"
proof -
  consider "frame = None" | d where "frame = Some d" "d = JNull \<or> d = JUndefined"
    | d where "frame = Some d" "d \<noteq> JNull" "d \<noteq> JUndefined"
    by (cases frame) auto
  then have "messagesReceived (metrics (handleMessage pf frame t0 t1 s))
     = messagesReceived (metrics s) + (if frame = None then 0 else 1) \<and>
  messagesProcessed (metrics (handleMessage pf frame t0 t1 s))
     = messagesProcessed (metrics s) + (if frame = None \<or> frame = Some JNull \<or> frame = Some JUndefined then 0 else 1) \<and>
  errorsCount (metrics (handleMessage pf frame t0 t1 s))
     = errorsCount (metrics s) + (if frame = None \<or> frame = Some JNull \<or> frame = Some JUndefined then 1 else 0)"
  proof cases
    case 1
    then show ?thesis by (simp add: handleMessage_unparsed metrics_message_failed)
  next
    case 2
    then show ?thesis by (auto simp add: handleMessage_null metrics_message_failed)
  next
    case 3
    from handleMessage_parsed[OF 3(2,3), of pf t0 t1 s] obtain ev where
      "handleMessage pf (Some d) t0 t1 s =
     (let s1 = s\<lparr>metrics := (metrics s)
                      \<lparr> messagesReceived := messagesReceived (metrics s) + 1,
                        lastMessageTime := toISOString pf t0 \<rparr>\<rparr>;
          s2 = dispatch pf ev (js_get ev ''channel'') s1
      in recordLatency (Finite (of_int (t1 - t0)))
                    (s2\<lparr>metrics := (metrics s2)
                        \<lparr>messagesProcessed := messagesProcessed (metrics s2) + 1\<rparr>\<rparr>))"
      by blast
    then show ?thesis using 3 by (simp add: Let_def)
  qed
  then show "messagesReceived (metrics (handleMessage pf frame t0 t1 s))
     = messagesReceived (metrics s) + (if frame = None then 0 else 1)"
  "messagesProcessed (metrics (handleMessage pf frame t0 t1 s))
     = messagesProcessed (metrics s) + (if frame = None \<or> frame = Some JNull \<or> frame = Some JUndefined then 0 else 1)"
  "errorsCount (metrics (handleMessage pf frame t0 t1 s))
     = errorsCount (metrics s) + (if frame = None \<or> frame = Some JNull \<or> frame = Some JUndefined then 1 else 0)"
    by simp_all
qed

lemma step_inv:
  assumes "messagesProcessed (metrics s) \<le> messagesReceived (metrics s)"
  shows "messagesProcessed (metrics (step pf i s)) \<le> messagesReceived (metrics (step pf i s))"
proof (cases i)
  case (TransportMessage frame t0 t1)
  with assms show ?thesis by (simp add: handleMessage_counters)
qed (use assms in \<open>simp_all add: metrics_connect disconnect_def Let_def subscribe_def unsubscribe_def on_def off_def
      onopen_def startHeartbeat_def onerror_def metrics_handleError handleCedarEvent_def
      handleHeartbeat_def reconnect_timer_fired_def metrics_processCedarEvent
      split: option.splits sum.splits\<close>)

lemma run_inv:
  assumes "messagesProcessed (metrics s) \<le> messagesReceived (metrics s)"
  shows "messagesProcessed (metrics (run pf ins s)) \<le> messagesReceived (metrics (run pf ins s))"
  using assms unfolding run_def
  by (induction ins arbitrary: s) (simp_all add: step_inv)

section \<open>Scheduling a reconnect\<close>

lemma scheduleReconnect_fields:
  "status (scheduleReconnect pf s) = (if reconnectTimer s then status s else Reconnecting)"
  "reconnectTimer (scheduleReconnect pf s) = True"
  "reconnectAttempts (scheduleReconnect pf s)
     = (if reconnectTimer s then reconnectAttempts s else reconnectAttempts s + 1)"
  "config (scheduleReconnect pf s) = config s"
  "heartbeatTimer (scheduleReconnect pf s) = heartbeatTimer s"
  "eventSource (scheduleReconnect pf s) = eventSource s"
  "timeouts_set (trace (scheduleReconnect pf s))
     = timeouts_set (trace s) + (if reconnectTimer s then 0 else 1)"
  "transports_opened (trace (scheduleReconnect pf s)) = transports_opened (trace s)"
  "intervals_cleared (trace (scheduleReconnect pf s)) = intervals_cleared (trace s)"
  "live_intervals (trace (scheduleReconnect pf s)) = live_intervals (trace s)"
  by (simp_all add: scheduleReconnect_def Let_def log_eq do_effect_def)

lemma handleError_fields:
  "status (handleError pf now err s) = (if may_retry s \<and> \<not> reconnectTimer s then Reconnecting else Error)"
  "reconnectTimer (handleError pf now err s) = (reconnectTimer s \<or> may_retry s)"
  "reconnectAttempts (handleError pf now err s)
     = (if may_retry s \<and> \<not> reconnectTimer s then reconnectAttempts s + 1 else reconnectAttempts s)"
  "config (handleError pf now err s) = config s"
  "heartbeatTimer (handleError pf now err s) = heartbeatTimer s"
  "eventSource (handleError pf now err s) = eventSource s"
  "timeouts_set (trace (handleError pf now err s))
     = timeouts_set (trace s) + (if may_retry s \<and> \<not> reconnectTimer s then 1 else 0)"
  "transports_opened (trace (handleError pf now err s)) = transports_opened (trace s)"
  "intervals_cleared (trace (handleError pf now err s)) = intervals_cleared (trace s)"
  "live_intervals (trace (handleError pf now err s)) = live_intervals (trace s)"
  by (simp_all add: handleError_def Let_def may_retry_def scheduleReconnect_fields log_eq)

section \<open>The reconnect cap\<close>

lemma onerror_fields:
  "status (onerror pf now err s) = (if may_retry s \<and> \<not> reconnectTimer s then Reconnecting else Error)"
  "reconnectTimer (onerror pf now err s) = (reconnectTimer s \<or> may_retry s)"
  "reconnectAttempts (onerror pf now err s)
     = (if may_retry s \<and> \<not> reconnectTimer s then reconnectAttempts s + 1 else reconnectAttempts s)"
  "config (onerror pf now err s) = config s"
  "heartbeatTimer (onerror pf now err s) = heartbeatTimer s"
  "timeouts_set (trace (onerror pf now err s))
     = timeouts_set (trace s) + (if may_retry s \<and> \<not> reconnectTimer s then 1 else 0)"
  "transports_opened (trace (onerror pf now err s)) = transports_opened (trace s)"
  "intervals_cleared (trace (onerror pf now err s)) = intervals_cleared (trace s)"
  "live_intervals (trace (onerror pf now err s)) = live_intervals (trace s)"
  by (simp_all add: onerror_def handleError_fields log_eq may_retry_def)
















section \<open>The promise of connect\<close>







section \<open>The heartbeat timer\<close>

lemma hb_connect:
  "heartbeatTimer (snd (connect pf now s)) = heartbeatTimer s"
  "live_intervals (trace (snd (connect pf now s))) = live_intervals (trace s)"
  "intervals_cleared (trace (snd (connect pf now s))) = intervals_cleared (trace s)"
  by (simp_all add: connect_def connect_failed_def Let_def handleError_fields log_eq
        do_effect_def)

lemma hb_disconnect:
  "heartbeatTimer (disconnect pf s) = False"
  "live_intervals (trace (disconnect pf s)) = live_intervals (trace s) - (if heartbeatTimer s then 1 else 0)"
  "intervals_cleared (trace (disconnect pf s)) = intervals_cleared (trace s) + (if heartbeatTimer s then 1 else 0)"
  by (simp_all add: disconnect_def Let_def log_eq do_effect_def)

lemma hb_onopen:
  "heartbeatTimer (onopen pf s) = True"
  "live_intervals (trace (onopen pf s)) = live_intervals (trace s) + (if heartbeatTimer s then 0 else 1)"
  by (simp_all add: onopen_def startHeartbeat_def Let_def log_eq do_effect_def)

lemma hb_handleMessage:
  "heartbeatTimer (handleMessage pf frame t0 t1 s) = heartbeatTimer s"
  "live_intervals (trace (handleMessage pf frame t0 t1 s)) = live_intervals (trace s)"
  by (simp_all add: handleMessage_def message_failed_def processLegacyEvent_def processCedarEvent_def
       recordLatency_def Let_def log_eq do_effect_def
       split: option.splits sum.splits)

lemma hb_handleCedarEvent:
  "heartbeatTimer (handleCedarEvent pf frame s) = heartbeatTimer s"
  "live_intervals (trace (handleCedarEvent pf frame s)) = live_intervals (trace s)"
  by (simp_all add: handleCedarEvent_def processCedarEvent_def
       Let_def log_eq do_effect_def
       split: option.splits sum.splits)

lemma hb_handleHeartbeat:
  "heartbeatTimer (handleHeartbeat pf frame now s) = heartbeatTimer s"
  "live_intervals (trace (handleHeartbeat pf frame now s)) = live_intervals (trace s)"
  by (simp_all add: handleHeartbeat_def recordLatency_def Let_def log_eq do_effect_def
       split: option.splits sum.splits)

lemma hb_router:
  "heartbeatTimer (subscribe c h s) = heartbeatTimer s"
  "live_intervals (trace (subscribe c h s)) = live_intervals (trace s)"
  "heartbeatTimer (unsubscribe c ho s) = heartbeatTimer s"
  "live_intervals (trace (unsubscribe c ho s)) = live_intervals (trace s)"
  "heartbeatTimer (on ev h s) = heartbeatTimer s"
  "trace (on ev h s) = trace s"
  "heartbeatTimer (off ev h s) = heartbeatTimer s"
  "trace (off ev h s) = trace s"
  by (simp_all add: subscribe_def unsubscribe_def on_def off_def Let_def log_eq
       split: option.splits)

lemma hb_step:
  assumes "live_intervals (trace s) = (if heartbeatTimer s then 1 else 0)"
  shows "live_intervals (trace (step pf i s)) = (if heartbeatTimer (step pf i s) then 1 else 0)"
  using assms
  by (cases i)
     (simp_all add: hb_connect hb_disconnect hb_onopen hb_handleMessage hb_handleCedarEvent
        hb_handleHeartbeat hb_router onerror_fields reconnect_timer_fired_def)

lemma hb_run:
  assumes "live_intervals (trace s) = (if heartbeatTimer s then 1 else 0)"
  shows "live_intervals (trace (run pf ins s)) = (if heartbeatTimer (run pf ins s) then 1 else 0)"
  using assms unfolding run_def
  by (induction ins arbitrary: s) (simp_all add: hb_step)

text \<open>
  Claim C4, amended. \<^verbatim>\<open>disconnect()\<close> stops the heartbeat timer: it clears it once when
  it is running, not at all when it is not, and leaves none. \<^verbatim>\<open>handleError\<close>, through
  which the status becomes \<open>Error\<close> and \<open>Reconnecting\<close>, does not touch the timer: it
  clears nothing and the timer keeps running. \<^verbatim>\<open>startHeartbeat\<close> while a timer runs
  changes nothing, and in every run of a client the number of interval timers alive on
  the platform is one when \<open>heartbeatTimer\<close> is set and none when it is not: never two.
\<close>

theorem heartbeat_timer:
  "heartbeatTimer (disconnect pf s) = False
   \<and> intervals_cleared (trace (disconnect pf s))
       = intervals_cleared (trace s) + (if heartbeatTimer s then 1 else 0)
   \<and> heartbeatTimer (handleError pf now err s) = heartbeatTimer s
   \<and> intervals_cleared (trace (handleError pf now err s)) = intervals_cleared (trace s)
   \<and> (heartbeatTimer s \<longrightarrow> startHeartbeat s = s)
   \<and> live_intervals (trace (run pf ins (new_service cfg)))
       = (if heartbeatTimer (run pf ins (new_service cfg)) then 1 else 0)"
proof -
  have i: "live_intervals (trace (new_service cfg))
             = (if heartbeatTimer (new_service cfg) then 1 else 0)"
    by (simp add: new_service_def)
  show ?thesis
    using hb_run[OF i, of pf ins]
    by (simp add: hb_disconnect handleError_fields startHeartbeat_def)
qed

lemma demo_connected_facts:
  "heartbeatTimer demo_connected" "status demo_connected = Connected"
  "\<not> reconnectTimer demo_connected" "may_retry demo_connected"
  "intervals_cleared (trace demo_connected) = 0" "live_intervals (trace demo_connected) = 1"
  by (simp_all add: demo_connected_def may_retry_def demo_simps)

text \<open>
  Claim C4 as stated fails on a connected client whose transport reports an error: the
  status becomes \<open>Reconnecting\<close> and the heartbeat timer is still running, never cleared.
\<close>

theorem heartbeat_survives_error_counterexample:
  "heartbeatTimer demo_connected
   \<and> status (step demo_platform (TransportError demo_error 1) demo_connected) = Reconnecting
   \<and> heartbeatTimer (step demo_platform (TransportError demo_error 1) demo_connected)
   \<and> intervals_cleared (trace (step demo_platform (TransportError demo_error 1) demo_connected)) = 0
   \<and> live_intervals (trace (step demo_platform (TransportError demo_error 1) demo_connected)) = 1"
  by (simp add: onerror_fields demo_connected_facts)

theorem heartbeat_timer_witness:
  "heartbeatTimer demo_connected
   \<and> startHeartbeat demo_connected = demo_connected
   \<and> heartbeatTimer (disconnect demo_platform demo_connected) = False
   \<and> intervals_cleared (trace (disconnect demo_platform demo_connected)) = 1
   \<and> intervals_cleared (trace (disconnect demo_platform (disconnect demo_platform demo_connected))) = 1
   \<and> heartbeatTimer (run demo_platform [CallConnect 0, TransportOpen, TransportOpen]
        (new_service demo_config))
   \<and> live_intervals (trace (run demo_platform [CallConnect 0, TransportOpen, TransportOpen]
        (new_service demo_config))) = 1"
proof -
  note a = heartbeat_timer[of demo_platform demo_connected 0 demo_error
             "[CallConnect 0, TransportOpen, TransportOpen]" demo_config]
  note b = heartbeat_timer[of demo_platform "disconnect demo_platform demo_connected" 0 demo_error
             "[]" demo_config]
  have h: "heartbeatTimer (run demo_platform [CallConnect 0, TransportOpen, TransportOpen]
        (new_service demo_config))"
    by (simp add: run_def hb_onopen)
  from a b h show ?thesis by (simp add: demo_connected_facts)
qed

section \<open>Native and legacy frames\<close>

lemma isCedarEvent_object:
  "isCedarEvent d \<longleftrightarrow>
     (\<exists>kvs t c p ts. d = JObj kvs \<and> map_of kvs ''type'' = Some (JStr t)
        \<and> map_of kvs ''channel'' = Some (JStr c)
        \<and> map_of kvs ''data'' = Some p \<and> p \<noteq> JUndefined
        \<and> map_of kvs ''timestamp'' = Some (JStr ts))"
proof -
  have ts: "typeof_string v = (\<exists>x. v = JStr x)" for v
    by (cases v) simp_all
  show ?thesis
    by (cases d) (auto simp add: isCedarEvent_def ts split: option.splits)
qed

text \<open>
  Claim C5. A frame is taken as native exactly when it is an object whose \<^verbatim>\<open>type\<close>,
  \<^verbatim>\<open>channel\<close> and \<^verbatim>\<open>timestamp\<close> are strings and whose \<^verbatim>\<open>data\<close> is present
  (\<open>isCedarEvent_object\<close>), and every other frame but one is decoded as legacy without
  an exception (\<open>legacy_event_ok\<close>). The frame that parses to \<^verbatim>\<open>null\<close> is the one: it
  is not native, the legacy decoder raises a \<^verbatim>\<open>TypeError\<close> on its first read, and
  \<^verbatim>\<open>handleMessage\<close> ends in its \<^verbatim>\<open>catch\<close> block with no handler called.
\<close>

theorem null_frame_raises:
  "isCedarEvent JNull = False
   \<and> legacy_event pf now JNull = Inl TypeError
   \<and> processLegacyEvent pf now JNull s = Inl TypeError
   \<and> handleMessage pf (Some JNull) t0 t1 s =
       message_failed (s\<lparr>metrics := (metrics s)
                      \<lparr> messagesReceived := messagesReceived (metrics s) + 1,
                        lastMessageTime := toISOString pf t0 \<rparr>\<rparr>)
   \<and> handler_calls (trace (handleMessage pf (Some JNull) t0 t1 s)) = handler_calls (trace s)"
  by (simp add: legacy_event_null processLegacyEvent_def handleMessage_null
        message_failed_def log_eq handler_calls_def Let_def)

text \<open>
  Claim C6, amended. A frame other than \<^verbatim>\<open>null\<close> that goes to the legacy decoder gives an
  event on channel \<open>transactions\<close> for type \<open>transaction\<close>, \<open>notifications\<close> for type
  \<open>notification_popup\<close> and \<open>system\<close> for anything else, and that event goes to the same
  dispatch as a native one. The type of the event is the frame's, or \<open>unknown\<close> when the
  frame has none. For the two known types the data of the event is the \<^verbatim>\<open>data\<close> of the
  frame, and the event keeps the frame's timestamp when that is truthy and gets the
  clock's otherwise; for any other type the data of the event is the whole frame and
  the event always gets the clock's timestamp. The \<^verbatim>\<open>source\<close> of the event is
  \<open>legacy-websocket\<close>.
\<close>

theorem legacy_decode:
  assumes "d \<noteq> JNull" and "d \<noteq> JUndefined"
  shows "\<exists>ev. legacy_event pf now d = Inr ev
     \<and> ev = JObj
         [(''type'',
             if truthy (js_get d ''type'') then js_get d ''type'' else JStr ''unknown''),
          (''channel'',
             JStr (if js_get d ''type'' = JStr ''transaction'' then ''transactions''
                   else if js_get d ''type'' = JStr ''notification_popup'' then ''notifications''
                   else ''system'')),
          (''data'',
             if js_get d ''type'' = JStr ''transaction''
                  \<or> js_get d ''type'' = JStr ''notification_popup''
             then js_get d ''data'' else d),
          (''timestamp'',
             if (js_get d ''type'' = JStr ''transaction''
                   \<or> js_get d ''type'' = JStr ''notification_popup'')
                \<and> truthy (js_get d ''timestamp'')
             then js_get d ''timestamp''
             else JStr (toISOString pf now)),
          (''source'', JStr ''legacy-websocket'')]
     \<and> processLegacyEvent pf now d s = processCedarEvent pf ev s"
  using assms
  by (auto simp add: legacy_event_def js_prop_def js_or_def processLegacyEvent_def)

text \<open>
  Claim C6 as stated fails on a frame of another type that carries a timestamp: the
  event gets the clock's timestamp, not the frame's, and the tag is \<open>legacy-websocket\<close>.
\<close>

theorem legacy_timestamp_counterexample:
  "isCedarEvent demo_legacy_frame = False
   \<and> js_get demo_legacy_frame ''timestamp'' = JStr ''2024-01-01T00:00:00Z''
   \<and> legacy_event demo_platform 5 demo_legacy_frame =
       Inr (JObj [(''type'', JStr ''system_status''),
                  (''channel'', JStr ''system''),
                  (''data'', demo_legacy_frame),
                  (''timestamp'', JStr ''now''),
                  (''source'', JStr ''legacy-websocket'')])"
  by (simp add: isCedarEvent_def demo_legacy_frame_def legacy_event_def js_prop_def js_or_def
      demo_platform_def)

theorem legacy_decode_witness:
  "demo_transaction_frame \<noteq> JNull \<and> demo_transaction_frame \<noteq> JUndefined
   \<and> legacy_event demo_platform 5 demo_transaction_frame =
       Inr (JObj [(''type'', JStr ''transaction''),
                  (''channel'', JStr ''transactions''),
                  (''data'', JObj [(''amount'', JNum 5)]),
                  (''timestamp'', JStr ''2024-01-01T00:00:00Z''),
                  (''source'', JStr ''legacy-websocket'')])
   \<and> processLegacyEvent demo_platform 5 demo_transaction_frame demo_subscribed =
       processCedarEvent demo_platform
         (JObj [(''type'', JStr ''transaction''),
                (''channel'', JStr ''transactions''),
                (''data'', JObj [(''amount'', JNum 5)]),
                (''timestamp'', JStr ''2024-01-01T00:00:00Z''),
                (''source'', JStr ''legacy-websocket'')]) demo_subscribed"
proof -
  have a: "demo_transaction_frame \<noteq> JNull" and b: "demo_transaction_frame \<noteq> JUndefined"
    by (simp_all add: demo_transaction_frame_def)
  have t: "js_get demo_transaction_frame ''type'' = JStr ''transaction''"
    "js_get demo_transaction_frame ''timestamp'' = JStr ''2024-01-01T00:00:00Z''"
    "js_get demo_transaction_frame ''data'' = JObj [(''amount'', JNum 5)]"
    by (simp_all add: demo_transaction_frame_def)
  from legacy_decode[OF a b, of demo_platform 5 demo_subscribed]
  show ?thesis using a b by (auto simp add: t)
qed

text \<open>
  The counters in every run. After every sequence of calls, transport callbacks and
  timer firings on a new client, \<open>messagesProcessed \<le> messagesReceived\<close>. A frame that
  does not parse adds one to the error counter and leaves the other two alone. A frame
  that parses to anything but \<^verbatim>\<open>null\<close> adds one to \<open>messagesReceived\<close> before the
  handlers run and one to \<open>messagesProcessed\<close> after them, whatever the handlers do, and
  leaves the error counter alone.
\<close>

theorem metrics_invariant:
  "messagesProcessed (metrics (run pf ins (new_service cfg)))
     \<le> messagesReceived (metrics (run pf ins (new_service cfg)))
   \<and> metrics (handleMessage pf None t0 t1 s)
       = (metrics s)\<lparr>errorsCount := errorsCount (metrics s) + 1\<rparr>
   \<and> (d \<noteq> JNull \<and> d \<noteq> JUndefined \<longrightarrow>
        messagesReceived (metrics (handleMessage pf (Some d) t0 t1 s))
          = messagesReceived (metrics s) + 1
      \<and> messagesProcessed (metrics (handleMessage pf (Some d) t0 t1 s))
          = messagesProcessed (metrics s) + 1
      \<and> errorsCount (metrics (handleMessage pf (Some d) t0 t1 s)) = errorsCount (metrics s)
      \<and> (\<exists>ev. handleMessage pf (Some d) t0 t1 s =
           (let s1 = s\<lparr>metrics := (metrics s)
                      \<lparr> messagesReceived := messagesReceived (metrics s) + 1,
                        lastMessageTime := toISOString pf t0 \<rparr>\<rparr>;
                s2 = dispatch pf ev (js_get ev ''channel'') s1
            in recordLatency (Finite (of_int (t1 - t0)))
                 (s2\<lparr>metrics := (metrics s2)
                     \<lparr>messagesProcessed := messagesProcessed (metrics s2) + 1\<rparr>\<rparr>))))"
proof -
  have i: "messagesProcessed (metrics (new_service cfg))
             \<le> messagesReceived (metrics (new_service cfg))"
    by (simp add: new_service_def)
  show ?thesis
    using run_inv[OF i, of pf ins] handleMessage_parsed[of d pf t0 t1 s]
    by (simp add: handleMessage_unparsed metrics_message_failed handleMessage_counters)
qed

theorem metrics_invariant_witness:
  "demo_event \<noteq> JNull \<and> demo_event \<noteq> JUndefined
   \<and> handler_throws demo_platform 2 demo_event
   \<and> messagesProcessed (metrics (run demo_platform demo_frames (new_service demo_config)))
       \<le> messagesReceived (metrics (run demo_platform demo_frames (new_service demo_config)))
   \<and> messagesReceived (metrics (handleMessage demo_platform (Some demo_event) 2 3
        (subscribe ''notifications'' 2 (new_service demo_config)))) = 1
   \<and> messagesProcessed (metrics (handleMessage demo_platform (Some demo_event) 2 3
        (subscribe ''notifications'' 2 (new_service demo_config)))) = 1
   \<and> errorsCount (metrics (handleMessage demo_platform (Some demo_event) 2 3
        (subscribe ''notifications'' 2 (new_service demo_config)))) = 0"
proof -
  have a: "demo_event \<noteq> JNull \<and> demo_event \<noteq> JUndefined"
    by (simp add: demo_event_def)
  have m: "metrics (subscribe ''notifications'' 2 (new_service demo_config))
             = metrics (new_service demo_config)"
    by simp
  have t: "handler_throws demo_platform 2 demo_event"
    by (simp add: demo_platform_def)
  have z: "messagesReceived (metrics (new_service demo_config)) = 0"
    "messagesProcessed (metrics (new_service demo_config)) = 0"
    "errorsCount (metrics (new_service demo_config)) = 0"
    by (simp_all add: new_service_def)
  note T = metrics_invariant[of demo_platform demo_frames demo_config 2 3
         "subscribe ''notifications'' 2 (new_service demo_config)" demo_event]
  from T have i: "messagesProcessed (metrics (run demo_platform demo_frames (new_service demo_config)))
       \<le> messagesReceived (metrics (run demo_platform demo_frames (new_service demo_config)))"
    by (rule conjunct1)
  from T a have c: "messagesReceived (metrics (handleMessage demo_platform (Some demo_event) 2 3
        (subscribe ''notifications'' 2 (new_service demo_config)))) = 1
   \<and> messagesProcessed (metrics (handleMessage demo_platform (Some demo_event) 2 3
        (subscribe ''notifications'' 2 (new_service demo_config)))) = 1
   \<and> errorsCount (metrics (handleMessage demo_platform (Some demo_event) 2 3
        (subscribe ''notifications'' 2 (new_service demo_config)))) = 0"
    by (simp only: m z) simp
  from a t i c show ?thesis by blast
qed

text \<open>
  Claim C10. The invariant \<open>messagesProcessed \<le> messagesReceived\<close> and the two counting
  rules hold as the claim has them for every frame but one (\<open>metrics_invariant\<close>). The
  frame that parses to \<^verbatim>\<open>null\<close> is parsed successfully and yet is not counted as
  processed: the \<^verbatim>\<open>TypeError\<close> of the legacy decoder (claim C5) takes
  \<^verbatim>\<open>handleMessage\<close> to its \<^verbatim>\<open>catch\<close> block, so the frame is counted as received and
  as an error.
\<close>

theorem null_frame_counters:
  "messagesReceived (metrics (handleMessage pf (Some JNull) t0 t1 s))
     = messagesReceived (metrics s) + 1
   \<and> messagesProcessed (metrics (handleMessage pf (Some JNull) t0 t1 s))
     = messagesProcessed (metrics s)
   \<and> errorsCount (metrics (handleMessage pf (Some JNull) t0 t1 s))
     = errorsCount (metrics s) + 1"
  by (simp add: handleMessage_counters)

section \<open>Lifecycle events of disconnect\<close>

lemma listeners_of_upd [simp]:
  "listeners_of (s\<lparr>trace := t\<rparr>) = listeners_of s"
  "listeners_of (s\<lparr>status := st\<rparr>) = listeners_of s"
  "listeners_of (s\<lparr>reconnectAttempts := n\<rparr>) = listeners_of s"
  "listeners_of (s\<lparr>reconnectTimer := b\<rparr>) = listeners_of s"
  "listeners_of (s\<lparr>heartbeatTimer := b\<rparr>) = listeners_of s"
  "listeners_of (s\<lparr>eventSource := b\<rparr>) = listeners_of s"
  "listeners_of (s\<lparr>metrics := m\<rparr>) = listeners_of s"
  "listeners_of (s\<lparr>connectionStartTime := i\<rparr>) = listeners_of s"
  "listeners_of (s\<lparr>latencyHistory := l\<rparr>) = listeners_of s"
  "listeners_of (s\<lparr>channelHandlers := c\<rparr>) = listeners_of s"
  "listeners_of (s\<lparr>arrays := ar\<rparr>) = listeners_of s"
  "listeners_of (s\<lparr>next_array := n\<rparr>) = listeners_of s"
  by (simp_all add: listeners_of_def fun_eq_iff)

lemma listeners_of_log [simp]:
  "listeners_of (log m s) = listeners_of s"
  "listeners_of (do_effect e s) = listeners_of s"
  by (simp_all add: log_eq do_effect_def)



















section \<open>The store of handler arrays\<close>

lemma wf_arrays_upd [simp]:
  "wf_arrays (s\<lparr>trace := t\<rparr>) = wf_arrays s"
  "wf_arrays (s\<lparr>status := st\<rparr>) = wf_arrays s"
  "wf_arrays (s\<lparr>reconnectAttempts := n\<rparr>) = wf_arrays s"
  "wf_arrays (s\<lparr>reconnectTimer := b\<rparr>) = wf_arrays s"
  "wf_arrays (s\<lparr>heartbeatTimer := b\<rparr>) = wf_arrays s"
  "wf_arrays (s\<lparr>eventSource := b\<rparr>) = wf_arrays s"
  "wf_arrays (s\<lparr>metrics := m\<rparr>) = wf_arrays s"
  "wf_arrays (s\<lparr>connectionStartTime := i\<rparr>) = wf_arrays s"
  "wf_arrays (s\<lparr>latencyHistory := l\<rparr>) = wf_arrays s"
  "wf_arrays (s\<lparr>eventHandlers := e\<rparr>) = wf_arrays s"
  "wf_arrays (s\<lparr>arrays := ar\<rparr>) = wf_arrays s"
  by (simp_all add: wf_arrays_def)

lemma wf_log [simp]: "wf_arrays (log m s) = wf_arrays s" "wf_arrays (do_effect e s) = wf_arrays s"
  by (simp_all add: log_eq do_effect_def)

lemma wf_new [simp]: "wf_arrays (new_service cfg)"
  by (simp add: wf_arrays_def new_service_def)

lemma wf_subscribe [simp]: "wf_arrays s \<Longrightarrow> wf_arrays (subscribe c h s)"
  by (simp add: subscribe_def Let_def split: option.splits)
     (auto simp add: wf_arrays_def less_Suc_eq split: if_splits)

lemma wf_unsubscribe [simp]: "wf_arrays s \<Longrightarrow> wf_arrays (unsubscribe c h s)"
  by (simp add: unsubscribe_def split: option.splits)
     (auto simp add: wf_arrays_def split: if_splits)

lemma wf_on [simp]: "wf_arrays (on ev h s) = wf_arrays s"
  by (simp add: on_def Let_def)

lemma wf_off [simp]: "wf_arrays (off ev h s) = wf_arrays s"
  by (simp add: off_def split: option.splits)

lemma wf_reenter [simp]: "wf_arrays s \<Longrightarrow> wf_arrays (reenter op s)"
  by (cases op) simp_all

lemma wf_reenter_all [simp]: "wf_arrays s \<Longrightarrow> wf_arrays (reenter_all ops s)"
  unfolding reenter_all_def by (induction ops arbitrary: s) simp_all

lemma wf_listener_called [simp]: "wf_arrays s \<Longrightarrow> wf_arrays (listener_called pf ev d h s)"
  by (simp add: listener_called_def call_listener_def)

lemma wf_forEach_listener [simp]:
  "wf_arrays s \<Longrightarrow> wf_arrays (forEach_listener pf ev d k r s)"
  by (induction r arbitrary: k s) simp_all

lemma wf_emit [simp]: "wf_arrays s \<Longrightarrow> wf_arrays (emit pf ev d s)"
  by (simp add: emit_def)

lemma wf_setStatus [simp]: "wf_arrays s \<Longrightarrow> wf_arrays (setStatus pf st s)"
  by (simp add: setStatus_def Let_def)

lemma wf_handler_called [simp]: "wf_arrays s \<Longrightarrow> wf_arrays (handler_called pf ev h s)"
  by (simp add: handler_called_def call_handler_def)

lemma wf_forEach_handler [simp]:
  "wf_arrays s \<Longrightarrow> wf_arrays (forEach_handler pf ev a k r s)"
  by (induction r arbitrary: k s) simp_all

lemma wf_dispatch [simp]: "wf_arrays s \<Longrightarrow> wf_arrays (dispatch pf ev key s)"
  by (simp add: dispatch_def split: jsval.splits option.splits)

lemma wf_handleError [simp]: "wf_arrays s \<Longrightarrow> wf_arrays (handleError pf now err s)"
  by (simp add: handleError_def scheduleReconnect_def Let_def do_effect_def)

lemma wf_connect [simp]: "wf_arrays s \<Longrightarrow> wf_arrays (snd (connect pf now s))"
  by (simp add: connect_def connect_failed_def Let_def do_effect_def)

lemma wf_step: "wf_arrays s \<Longrightarrow> wf_arrays (step pf i s)"
  by (cases i)
     (simp_all add: disconnect_def onopen_def onerror_def startHeartbeat_def
        handleMessage_def message_failed_def processLegacyEvent_def processCedarEvent_def
        handleCedarEvent_def handleHeartbeat_def recordLatency_def reconnect_timer_fired_def
        Let_def do_effect_def split: option.splits sum.splits)

lemma wf_run: "wf_arrays (run pf ins (new_service cfg))"
proof -
  have "wf_arrays s \<Longrightarrow> wf_arrays (run pf ins s)" for s
    unfolding run_def by (induction ins arbitrary: s) (simp_all add: wf_step)
  then show ?thesis by simp
qed

section \<open>Dispatch to channel handlers\<close>

lemma walking_upd [simp]:
  "walking a c L (s\<lparr>trace := t\<rparr>) = walking a c L s"
  "walking a c L (s\<lparr>eventHandlers := e\<rparr>) = walking a c L s"
  by (simp_all add: walking_def)

lemma walking_log [simp]:
  "walking a c L (log m s) = walking a c L s" "walking a c L (do_effect e s) = walking a c L s"
  by (simp_all add: log_eq do_effect_def)

lemma walking_subscribe: "walking a c L s \<Longrightarrow> walking a c L (subscribe c' h s)"
  by (simp add: subscribe_def Let_def split: option.splits)
     (auto simp add: walking_def wf_arrays_def less_Suc_eq split: if_splits)

lemma walking_unsubscribe:
  "walking a c L s \<Longrightarrow> (\<forall>x. c' = c \<longrightarrow> h \<noteq> Some x) \<Longrightarrow> walking a c L (unsubscribe c' h s)"
  by (simp add: unsubscribe_def split: option.splits)
     (auto simp add: walking_def wf_arrays_def split: if_splits)

lemma walking_reenter:
  assumes "walking a c L s" and "\<forall>x. op \<noteq> ReUnsubscribe c (Some x)"
  shows "walking a c L (reenter op s)"
proof (cases op)
  case (ReSubscribe c' h)
  with assms(1) show ?thesis by (simp add: walking_subscribe)
next
  case (ReUnsubscribe c' h)
  with assms(2) have "\<forall>x. c' = c \<longrightarrow> h \<noteq> Some x" by auto
  with ReUnsubscribe assms(1) show ?thesis by (simp add: walking_unsubscribe)
next
  case (ReOn e h)
  with assms(1) show ?thesis by (simp add: on_def Let_def)
next
  case (ReOff e h)
  with assms(1) show ?thesis by (simp add: off_def split: option.splits)
qed

lemma walking_reenter_all:
  assumes "walking a c L s" and "\<forall>op \<in> set ops. \<forall>x. op \<noteq> ReUnsubscribe c (Some x)"
  shows "walking a c L (reenter_all ops s)"
  using assms unfolding reenter_all_def
  by (induction ops arbitrary: s) (simp_all add: walking_reenter)

lemma walking_handler_called:
  assumes "walking a c L s"
    and "\<forall>op \<in> set (handler_does pf h ev). \<forall>x. op \<noteq> ReUnsubscribe c (Some x)"
  shows "walking a c L (handler_called pf ev h s)"
  using walking_reenter_all[OF _ assms(2), of a L "do_effect (HandlerCall h ev) s"] assms(1)
  by (simp add: handler_called_def call_handler_def)

lemma handler_called_calls:
  "handler_calls (trace (handler_called pf ev h s)) = handler_calls (trace s) @ [(h, ev)]"
  by (simp add: handler_called_def call_handler_def log_eq do_effect_def handler_calls_append)

lemma forEach_handler_calls:
  assumes H: "\<forall>h \<in> set L. \<forall>op \<in> set (handler_does pf h ev). \<forall>x. op \<noteq> ReUnsubscribe c (Some x)"
    and "walking a c L s" and "k + r = length L"
  shows "handler_calls (trace (forEach_handler pf ev a k r s))
           = handler_calls (trace s) @ map (\<lambda>h. (h, ev)) (drop k L)"
  using assms(2,3)
proof (induction r arbitrary: k s)
  case 0
  then show ?case by simp
next
  case (Suc r)
  from Suc.prems have k: "k < length L" by simp
  from Suc.prems(1) obtain extra where e: "arrays s a = L @ extra"
    by (auto simp add: walking_def)
  with k have kk: "k < length (arrays s a)" "arrays s a ! k = L ! k"
    by (simp_all add: nth_append)
  let ?t = "handler_called pf ev (L ! k) s"
  from k have "L ! k \<in> set L" by simp
  with H have "\<forall>op \<in> set (handler_does pf (L ! k) ev). \<forall>x. op \<noteq> ReUnsubscribe c (Some x)"
    by blast
  from walking_handler_called[OF Suc.prems(1) this] have w: "walking a c L ?t" .
  have r: "Suc k + r = length L" using Suc.prems(2) by simp
  have "handler_calls (trace (forEach_handler pf ev a (Suc k) r ?t))
          = handler_calls (trace ?t) @ map (\<lambda>h. (h, ev)) (drop (Suc k) L)"
    by (rule Suc.IH[OF w r])
  also have "\<dots> = handler_calls (trace s) @ map (\<lambda>h. (h, ev)) (L ! k # drop (Suc k) L)"
    by (simp add: handler_called_calls)
  also have "L ! k # drop (Suc k) L = drop k L" using k by (rule Cons_nth_drop_Suc)
  finally show ?case using kk by simp
qed

lemma dispatch_calls:
  assumes "wf_arrays s"
    and "\<forall>h \<in> set (handlers_of s (JStr c)). \<forall>op \<in> set (handler_does pf h ev).
           \<forall>x. op \<noteq> ReUnsubscribe c (Some x)"
  shows "handler_calls (trace (dispatch pf ev (JStr c) s))
           = handler_calls (trace s) @ map (\<lambda>h. (h, ev)) (handlers_of s (JStr c))"
proof (cases "channelHandlers s c")
  case None
  then show ?thesis by (simp add: dispatch_def handlers_of_def)
next
  case (Some a)
  then have h: "handlers_of s (JStr c) = arrays s a" by (simp add: handlers_of_def)
  have w: "walking a c (arrays s a) s"
    using assms(1) Some by (auto simp add: walking_def wf_arrays_def)
  from forEach_handler_calls[OF _ w, of pf ev 0 "length (arrays s a)"] assms(2) Some h
  show ?thesis by (simp add: dispatch_def)
qed

lemma subscribe_handlers:
  "handlers_of (subscribe c h s) (JStr c) = handlers_of s (JStr c) @ [h]"
  by (simp add: subscribe_def handlers_of_def Let_def log_eq split: option.splits)

lemma subscribe_all:
  "handlers_of (foldl (\<lambda>s h. subscribe c h s) s hs) (JStr c) = handlers_of s (JStr c) @ hs
   \<and> handler_calls (trace (foldl (\<lambda>s h. subscribe c h s) s hs)) = handler_calls (trace s)
   \<and> (wf_arrays s \<longrightarrow> wf_arrays (foldl (\<lambda>s h. subscribe c h s) s hs))"
proof (induction hs arbitrary: s)
  case Nil
  show ?case by simp
next
  case (Cons h hs)
  from Cons[of "subscribe c h s"] show ?case
    by (simp add: subscribe_handlers)
qed

text \<open>
  Claim C2, amended. Take a client in any state it can reach, register the handlers
  \<open>hs\<close>, in this order and with repetitions allowed, on channel \<open>c\<close> (after those
  already registered there), and dispatch one event whose \<^verbatim>\<open>channel\<close> is \<open>c\<close>. If none
  of these handlers, while it runs on that event, takes a handler off channel \<open>c\<close> with
  \<^verbatim>\<open>unsubscribe(c, handler)\<close>, then whatever else the handlers do, return, throw,
  subscribe, drop a whole channel, the dispatch returns normally and the calls it makes
  are exactly one call per registered handler, with that event, in registration order.
\<close>

theorem dispatch_completeness:
  assumes "js_prop ev ''channel'' = Inr (JStr c)"
    and "\<forall>h \<in> set (handlers_of (run pf ins (new_service cfg)) (JStr c) @ hs).
           \<forall>op \<in> set (handler_does pf h ev). \<forall>x. op \<noteq> ReUnsubscribe c (Some x)"
  shows "\<exists>s'. processCedarEvent pf ev
                (foldl (\<lambda>s h. subscribe c h s) (run pf ins (new_service cfg)) hs) = Inr s'
           \<and> handler_calls (trace s')
               = handler_calls (trace (run pf ins (new_service cfg)))
                 @ map (\<lambda>h. (h, ev)) (handlers_of (run pf ins (new_service cfg)) (JStr c) @ hs)"
proof -
  let ?s = "run pf ins (new_service cfg)"
  let ?t = "foldl (\<lambda>s h. subscribe c h s) ?s hs"
  note a = subscribe_all[of c ?s hs]
  from a wf_run[of pf ins cfg] have w: "wf_arrays ?t" by simp
  from a have h: "handlers_of ?t (JStr c) = handlers_of ?s (JStr c) @ hs" by simp
  from assms(2) have H: "\<forall>h \<in> set (handlers_of ?t (JStr c)). \<forall>op \<in> set (handler_does pf h ev).
           \<forall>x. op \<noteq> ReUnsubscribe c (Some x)"
    unfolding h .
  from dispatch_calls[OF w H] a assms(1) show ?thesis
    by (simp add: processCedarEvent_def)
qed

text \<open>
  Claim C2 as stated fails for two handlers when the first takes itself off the channel
  while it runs: the array shrinks under the loop and the second handler is not called.
\<close>

theorem dispatch_skips_counterexample:
  "handlers_of demo_leaving_handlers (JStr ''notifications'') = [4, 3]
   \<and> processCedarEvent demo_leaving_platform demo_event demo_leaving_handlers
       = Inr (dispatch demo_leaving_platform demo_event (JStr ''notifications'')
                demo_leaving_handlers)
   \<and> handler_calls (trace (dispatch demo_leaving_platform demo_event (JStr ''notifications'')
                             demo_leaving_handlers))
       = [(4, demo_event)]"
  by (simp add: demo_leaving_handlers_def demo_leaving_platform_def demo_platform_def
        demo_event_def demo_config_def new_service_def default_opt_def
        processCedarEvent_def js_prop_def dispatch_def handler_called_def call_handler_def
        reenter_all_def subscribe_def unsubscribe_def handlers_of_def log_def do_effect_def
        Let_def)

theorem dispatch_completeness_witness:
  "js_prop demo_event ''channel'' = Inr (JStr ''notifications'')
   \<and> handler_throws demo_platform 2 demo_event
   \<and> handler_does demo_platform 1 demo_event = [ReSubscribe ''system'' 8]
   \<and> (\<exists>s'. processCedarEvent demo_platform demo_event
              (foldl (\<lambda>s h. subscribe ''notifications'' h s)
                 (run demo_platform [] (new_service demo_config)) [1, 2, 1, 3])
            = Inr s'
          \<and> handler_calls (trace s')
              = [(1, demo_event), (2, demo_event), (1, demo_event), (3, demo_event)])"
proof -
  have c: "js_prop demo_event ''channel'' = Inr (JStr ''notifications'')"
    by (simp add: js_prop_def demo_event_def)
  have t: "handler_throws demo_platform 2 demo_event"
    "handler_does demo_platform 1 demo_event = [ReSubscribe ''system'' 8]"
    by (simp_all add: demo_platform_def)
  have e: "handlers_of (run demo_platform [] (new_service demo_config)) (JStr ''notifications'') = []"
    by (simp add: run_def handlers_of_def new_service_def)
  have n: "handler_calls (trace (run demo_platform [] (new_service demo_config))) = []"
    by (simp add: run_def new_service_def)
  have q: "\<forall>h \<in> set (handlers_of (run demo_platform [] (new_service demo_config))
                       (JStr ''notifications'') @ [1, 2, 1, 3]).
           \<forall>op \<in> set (handler_does demo_platform h demo_event).
             \<forall>x. op \<noteq> ReUnsubscribe ''notifications'' (Some x)"
    by (simp add: e demo_platform_def)
  from dispatch_completeness[OF c q]
  show ?thesis using c t e n by auto
qed

end
